theory Spec2Isabelle
  imports Main "HOL-Library.Sublist" "HOL-Library.AList"
begin

section \<open>JavaScript values\<close>

text \<open>
  The store (src/stores/wallpaper.js) handles values that come out of \<^verbatim>\<open>response.json()\<close>
  and \<^verbatim>\<open>JSON.parse\<close> without checking their shape, so documents, manifests and items are
  modelled as untyped JavaScript values. Numbers are integers (rendered in plain decimal):
  the store only tests them for truthiness and renders them in template literals. An object is an association
  list read with \<open>map_of\<close>. On a value parsed from JSON the store reads fixed property
  names, none of which a plain object inherits, so \<open>js_prop\<close> looks at own properties only.
  The two caches are read at keys the caller chooses: there the inherited properties count
  (see \<open>cached\<close>). \<open>JBuiltin n\<close> is the built-in function \<open>n\<close> that such a read can
  return: truthy, and without any of the properties the store reads.
\<close>

datatype jsval =
    JUndefined
  | JNull
  | JBool bool
  | JNum int
  | JStr string
  | JArr "jsval list"
  | JObj "(string \<times> jsval) list"
  | JBuiltin string

datatype js_error =
    Error string
  | TypeError string
  | SyntaxError string

fun message :: "js_error \<Rightarrow> string" where
  "message (Error m) = m"
| "message (TypeError m) = m"
| "message (SyntaxError m) = m"

fun truthy :: "jsval \<Rightarrow> bool" where
  "truthy JUndefined = False"
| "truthy JNull = False"
| "truthy (JBool b) = b"
| "truthy (JNum n) = (n \<noteq> 0)"
| "truthy (JStr s) = (s \<noteq> [])"
| "truthy (JArr xs) = True"
| "truthy (JObj kvs) = True"
| "truthy (JBuiltin n) = True"

fun nullish :: "jsval \<Rightarrow> bool" where
  "nullish JUndefined = True"
| "nullish JNull = True"
| "nullish v = False"

text \<open>\<^verbatim>\<open>a || b\<close>\<close>

definition js_or :: "jsval \<Rightarrow> jsval \<Rightarrow> jsval" where
  "js_or a b = (if truthy a then a else b)"

text \<open>
  \<^verbatim>\<open>v.k\<close> for a value that is neither null nor undefined (reading a property of those
  throws a TypeError, which every caller below writes out before it reads).
\<close>

fun js_prop :: "jsval \<Rightarrow> string \<Rightarrow> jsval" where
  "js_prop (JObj kvs) k = (case map_of kvs k of Some v \<Rightarrow> v | None \<Rightarrow> JUndefined)"
| "js_prop v k = JUndefined"

definition cannot_read :: "string \<Rightarrow> js_error" where
  "cannot_read k = TypeError (''Cannot read properties of null or undefined (reading '' @ k @ '')'')"

definition not_a_function :: "string \<Rightarrow> js_error" where
  "not_a_function k = TypeError (k @ '' is not a function'')"

fun show_nat :: "nat \<Rightarrow> string" where
  "show_nat n =
     (if n < 10 then [''0123456789'' ! n]
      else show_nat (n div 10) @ [''0123456789'' ! (n mod 10)])"

declare show_nat.simps [simp del]

definition show_int :: "int \<Rightarrow> string" where
  "show_int i = (if i < 0 then CHR ''-'' # show_nat (nat (- i)) else show_nat (nat i))"

fun join_comma :: "string list \<Rightarrow> string" where
  "join_comma [] = []"
| "join_comma [s] = s"
| "join_comma (s # t # ss) = s @ '','' @ join_comma (t # ss)"

text \<open>The string a value becomes inside a template literal \<^verbatim>\<open>`${v}`\<close>.\<close>

fun js_toString :: "jsval \<Rightarrow> string" where
  "js_toString JUndefined = ''undefined''"
| "js_toString JNull = ''null''"
| "js_toString (JBool b) = (if b then ''true'' else ''false'')"
| "js_toString (JNum n) = show_int n"
| "js_toString (JStr s) = s"
| "js_toString (JArr xs) = join_comma (map (\<lambda>x. if nullish x then [] else js_toString x) xs)"
| "js_toString (JObj kvs) = ''[object Object]''"
| "js_toString (JBuiltin n) = ''function '' @ n @ ''() { [native code] }''"

text \<open>\<^verbatim>\<open>{...v}\<close>: own enumerable properties; a string or an array spreads its indices.\<close>

fun js_spread :: "jsval \<Rightarrow> (string \<times> jsval) list" where
  "js_spread (JObj kvs) = kvs"
| "js_spread (JStr s) = map (\<lambda>i. (show_nat i, JStr [s ! i])) [0..<length s]"
| "js_spread (JArr xs) = map (\<lambda>i. (show_nat i, xs ! i)) [0..<length xs]"
| "js_spread v = []"

text \<open>\<^verbatim>\<open>xs[i]\<close> on an array: undefined out of range.\<close>

definition js_index :: "jsval list \<Rightarrow> int \<Rightarrow> jsval" where
  "js_index xs i = (if 0 \<le> i \<and> i < int (length xs) then xs ! nat i else JUndefined)"

text \<open>
  \<^verbatim>\<open>a === b\<close>. Exact on primitives; on arrays and objects JavaScript compares references,
  which a value model cannot tell apart, so equal structure stands for the same reference.
\<close>

definition js_strict_equals :: "jsval \<Rightarrow> jsval \<Rightarrow> bool" where
  "js_strict_equals a b = (a = b)"

text \<open>\<^verbatim>\<open>arrays.flat()\<close>: one level; an element that is not an array stays.\<close>

fun js_flat :: "jsval list \<Rightarrow> jsval list" where
  "js_flat [] = []"
| "js_flat (JArr xs # vs) = xs @ js_flat vs"
| "js_flat (v # vs) = v # js_flat vs"

section \<open>URL resolution\<close>

text \<open>
  \<^verbatim>\<open>buildImageUrl\<close> is imported from \<^verbatim>\<open>@/utils/format\<close>, which is not among the sources; it is a
  parameter of everything below, taken to return a string.
\<close>

text \<open>
  \<^verbatim>\<open>
  function transformWallpaperUrls(wallpaper) {
    return {
      ...wallpaper,
      url: wallpaper.path ? buildImageUrl(wallpaper.path) : (wallpaper.url || ''),
      thumbnailUrl: wallpaper.thumbnailPath ? buildImageUrl(wallpaper.thumbnailPath) : (wallpaper.thumbnailUrl || ''),
      previewUrl: wallpaper.previewPath ? buildImageUrl(wallpaper.previewPath) : (wallpaper.previewUrl || null),
      downloadUrl: wallpaper.path ? buildImageUrl(wallpaper.path) : (wallpaper.downloadUrl || ''),
    }
  }
  \<close>
\<close>

definition resolve_field :: "(jsval \<Rightarrow> string) \<Rightarrow> jsval \<Rightarrow> string \<Rightarrow> string \<Rightarrow> jsval \<Rightarrow> jsval" where
  "resolve_field build wallpaper pathKey urlKey dflt =
     (if truthy (js_prop wallpaper pathKey) then JStr (build (js_prop wallpaper pathKey))
      else js_or (js_prop wallpaper urlKey) dflt)"

definition transformWallpaperUrls :: "(jsval \<Rightarrow> string) \<Rightarrow> jsval \<Rightarrow> js_error + jsval" where
  "transformWallpaperUrls build wallpaper =
     (if nullish wallpaper then Inl (cannot_read ''path'')
      else Inr (JObj
        (AList.update ''downloadUrl'' (resolve_field build wallpaper ''path'' ''downloadUrl'' (JStr ''''))
        (AList.update ''previewUrl'' (resolve_field build wallpaper ''previewPath'' ''previewUrl'' JNull)
        (AList.update ''thumbnailUrl'' (resolve_field build wallpaper ''thumbnailPath'' ''thumbnailUrl'' (JStr ''''))
        (AList.update ''url'' (resolve_field build wallpaper ''path'' ''url'' (JStr ''''))
        (js_spread wallpaper)))))))"

text \<open>
  The older composable (src/composables/useWallpapers.js) resolves from the relative paths only,
  \<^verbatim>\<open>
  url: wallpaper.path ? buildImageUrl(wallpaper.path) : '',
  thumbnailUrl: wallpaper.thumbnailPath ? buildImageUrl(wallpaper.thumbnailPath) : '',
  previewUrl: wallpaper.previewPath ? buildImageUrl(wallpaper.previewPath) : null,
  downloadUrl: wallpaper.path ? buildImageUrl(wallpaper.path) : '',
  \<close>
  and its \<^verbatim>\<open>fetchWallpapers\<close> maps every item of the document through
  \<^verbatim>\<open>
  if (wallpaper.url && wallpaper.thumbnailUrl) { return wallpaper }
  return transformWallpaperUrls(wallpaper)
  \<close>
\<close>

definition composable_field :: "(jsval \<Rightarrow> string) \<Rightarrow> jsval \<Rightarrow> string \<Rightarrow> jsval \<Rightarrow> jsval" where
  "composable_field build wallpaper pathKey dflt =
     (if truthy (js_prop wallpaper pathKey) then JStr (build (js_prop wallpaper pathKey)) else dflt)"

definition composable_transformWallpaperUrls :: "(jsval \<Rightarrow> string) \<Rightarrow> jsval \<Rightarrow> js_error + jsval" where
  "composable_transformWallpaperUrls build wallpaper =
     (if nullish wallpaper then Inl (cannot_read ''path'')
      else Inr (JObj
        (AList.update ''downloadUrl'' (composable_field build wallpaper ''path'' (JStr ''''))
        (AList.update ''previewUrl'' (composable_field build wallpaper ''previewPath'' JNull)
        (AList.update ''thumbnailUrl'' (composable_field build wallpaper ''thumbnailPath'' (JStr ''''))
        (AList.update ''url'' (composable_field build wallpaper ''path'' (JStr ''''))
        (js_spread wallpaper)))))))"

definition fetchWallpapers_item :: "(jsval \<Rightarrow> string) \<Rightarrow> jsval \<Rightarrow> js_error + jsval" where
  "fetchWallpapers_item build wallpaper =
     (if nullish wallpaper then Inl (cannot_read ''url'')
      else if truthy (js_prop wallpaper ''url'') \<and> truthy (js_prop wallpaper ''thumbnailUrl'')
      then Inr wallpaper
      else composable_transformWallpaperUrls build wallpaper)"

text \<open>
  The resolver of the spec, \<^verbatim>\<open>resolve(item, kind)\<close>, is one field of what
  \<^verbatim>\<open>transformWallpaperUrls\<close> returns.
\<close>

datatype kind = Full | Thumbnail | Preview | Download

fun url_field :: "kind \<Rightarrow> string" where
  "url_field Full = ''url''"
| "url_field Thumbnail = ''thumbnailUrl''"
| "url_field Preview = ''previewUrl''"
| "url_field Download = ''downloadUrl''"

fun path_field :: "kind \<Rightarrow> string" where
  "path_field Full = ''path''"
| "path_field Thumbnail = ''thumbnailPath''"
| "path_field Preview = ''previewPath''"
| "path_field Download = ''path''"

definition resolve :: "(jsval \<Rightarrow> string) \<Rightarrow> jsval \<Rightarrow> kind \<Rightarrow> js_error + jsval" where
  "resolve build item k =
     (case transformWallpaperUrls build item of
        Inl e \<Rightarrow> Inl e
      | Inr resolved \<Rightarrow> Inr (js_prop resolved (url_field k)))"

text \<open>
  Modelled from the spec: \<^verbatim>\<open>buildImageUrl\<close> of \<^verbatim>\<open>@/utils/format\<close> is missing from the sources; the
  spec has it join a configured asset base and the relative path. This instance is used
  only to run the code on concrete items.
\<close>

definition cdn_buildImageUrl :: "jsval \<Rightarrow> string" where
  "cdn_buildImageUrl p = ''https://cdn.example/'' @ js_toString p"

section \<open>Environment and store state\<close>

text \<open>
  What the store imports and does not own: the series table \<^verbatim>\<open>SERIES_CONFIG\<close>
  (\<^verbatim>\<open>@/utils/constants\<close>), \<^verbatim>\<open>buildImageUrl\<close>, the network (\<^verbatim>\<open>fetch\<close>), the worker
  (\<^verbatim>\<open>isWorkerAvailable\<close>, \<^verbatim>\<open>workerDecodeAndParse\<close>), the wire decoder \<^verbatim>\<open>decodeData\<close>
  (\<^verbatim>\<open>@/utils/codec\<close>) and \<^verbatim>\<open>JSON.parse\<close>. None of them is among the sources, so each is a
  field of the environment. The field \<open>SERIES_CONFIG\<close> gives what the read
  \<^verbatim>\<open>SERIES_CONFIG[seriesId]\<close> yields, \<open>None\<close> when that is falsy. The network and the worker
  may answer differently from one call to the next: they are given the number of effects
  that happened before the call.
\<close>

record series_config =
  indexUrl :: string
  categoryBaseUrl :: string
  dataUrl :: string

record response =
  resp_ok :: bool
  resp_status :: nat
  resp_json :: "js_error + jsval"

record env =
  SERIES_CONFIG :: "string \<rightharpoonup> series_config"
  buildImageUrl :: "jsval \<Rightarrow> string"
  fetch :: "nat \<Rightarrow> string \<Rightarrow> js_error + response"
  isWorkerAvailable :: "nat \<Rightarrow> bool"
  workerDecodeAndParse :: "nat \<Rightarrow> jsval \<Rightarrow> js_error + jsval"
  decodeData :: "jsval \<Rightarrow> js_error + string"
  JSON_parse :: "string \<Rightarrow> js_error + jsval"

text \<open>
  Every effect that leaves the store is appended to \<open>trace\<close>: a network request, a decode
  in the worker or in the calling context, a console message with the error it reports.
\<close>

datatype event =
    NetFetch string
  | WorkerDecode jsval
  | MainDecode jsval
  | ConsoleWarn string js_error
  | ConsoleError string js_error

text \<open>
  The refs of the store. \<open>error\<close> is \<open>None\<close> for \<^verbatim>\<open>null\<close>. \<open>loadedCategories\<close> is a
  \<^verbatim>\<open>Set\<close> of the \<^verbatim>\<open>cat.file\<close> values (compared as \<open>js_strict_equals\<close> does).
\<close>

record state =
  seriesIndexCache :: "string \<rightharpoonup> jsval"
  categoryCache :: "string \<rightharpoonup> jsval"
  wallpapers :: "jsval list"
  currentLoadedSeries :: string
  loadedCategories :: "jsval set"
  loading :: bool
  error :: "string option"
  isBackgroundLoading :: bool
  initialLoadedCount :: nat
  trace :: "event list"

definition emit :: "event \<Rightarrow> state \<Rightarrow> state" where
  "emit ev s = s\<lparr>trace := trace s @ [ev]\<rparr>"

text \<open>
  Both caches are plain objects (\<^verbatim>\<open>ref({})\<close>), so a read \<^verbatim>\<open>cache.value[key]\<close> that finds no
  own property goes on to \<^verbatim>\<open>Object.prototype\<close>: its functions for their names, the prototype
  itself (an object without enumerable properties) for \<^verbatim>\<open>__proto__\<close>, and undefined for every
  other key. A map of the state holds the own properties. The keys beginning with \<^verbatim>\<open>__v_\<close>,
  which the reactive wrapper of \<^verbatim>\<open>ref\<close> answers itself, are not modelled.
\<close>

definition object_prototype :: "(string \<times> jsval) list" where
  "object_prototype =
     [(''constructor'', JBuiltin ''Object''),
      (''__defineGetter__'', JBuiltin ''__defineGetter__''),
      (''__defineSetter__'', JBuiltin ''__defineSetter__''),
      (''hasOwnProperty'', JBuiltin ''hasOwnProperty''),
      (''__lookupGetter__'', JBuiltin ''__lookupGetter__''),
      (''__lookupSetter__'', JBuiltin ''__lookupSetter__''),
      (''isPrototypeOf'', JBuiltin ''isPrototypeOf''),
      (''propertyIsEnumerable'', JBuiltin ''propertyIsEnumerable''),
      (''toString'', JBuiltin ''toString''),
      (''valueOf'', JBuiltin ''valueOf''),
      (''__proto__'', JObj []),
      (''toLocaleString'', JBuiltin ''toLocaleString'')]"

definition inherited :: "string \<Rightarrow> jsval" where
  "inherited k = (case map_of object_prototype k of None \<Rightarrow> JUndefined | Some v \<Rightarrow> v)"

definition cached :: "(string \<rightharpoonup> jsval) \<Rightarrow> string \<Rightarrow> jsval" where
  "cached m k = (case m k of None \<Rightarrow> inherited k | Some v \<Rightarrow> v)"

text \<open>The refs as the store creates them.\<close>

definition init_state :: state where
  "init_state =
     \<lparr>seriesIndexCache = Map.empty, categoryCache = Map.empty, wallpapers = [],
      currentLoadedSeries = [], loadedCategories = {}, loading = False, error = None,
      isBackgroundLoading = False, initialLoadedCount = 0, trace = []\<rparr>"

section \<open>Decode adapter\<close>

text \<open>
  \<^verbatim>\<open>encoded.length > 1000\<close>, for a truthy \<open>encoded\<close>. A string or an array has its length
  (the string's in characters of the model); a length that is not a number compares false.
\<close>

fun length_exceeds :: "jsval \<Rightarrow> nat \<Rightarrow> bool" where
  "length_exceeds (JStr s) n = (n < length s)"
| "length_exceeds (JArr xs) n = (n < length xs)"
| "length_exceeds (JObj kvs) n = (case js_prop (JObj kvs) ''length'' of JNum k \<Rightarrow> int n < k | _ \<Rightarrow> False)"
| "length_exceeds v n = False"

text \<open>
  \<^verbatim>\<open>
  const jsonStr = decodeData(encoded)
  return JSON.parse(jsonStr)
  \<close>
\<close>

definition decodeMainThread :: "env \<Rightarrow> jsval \<Rightarrow> state \<Rightarrow> (js_error + jsval) \<times> state" where
  "decodeMainThread E encoded s =
     (let s1 = emit (MainDecode encoded) s in
      case decodeData E encoded of
        Inl e \<Rightarrow> (Inl e, s1)
      | Inr jsonStr \<Rightarrow> (JSON_parse E jsonStr, s1))"

text \<open>
  \<^verbatim>\<open>
  if (isWorkerAvailable() && encoded.length > 1000) {
    try { return await workerDecodeAndParse(encoded) }
    catch (e) { console.warn('Worker decode failed, fallback to main thread:', e) }
  }
  \<close>
\<close>

definition decodeDataWithWorker :: "env \<Rightarrow> jsval \<Rightarrow> state \<Rightarrow> (js_error + jsval) \<times> state" where
  "decodeDataWithWorker E encoded s =
     (if isWorkerAvailable E (length (trace s)) \<and> length_exceeds encoded 1000 then
        (case workerDecodeAndParse E (length (trace s)) encoded of
           Inr v \<Rightarrow> (Inr v, emit (WorkerDecode encoded) s)
         | Inl e \<Rightarrow>
             decodeMainThread E encoded
               (emit (ConsoleWarn ''Worker decode failed, fallback to main thread:'' e)
                 (emit (WorkerDecode encoded) s)))
      else decodeMainThread E encoded s)"

section \<open>Series index cache and category payload cache\<close>

text \<open>
  \<^verbatim>\<open>
  const response = await fetch(url)
  if (!response.ok) { throw new Error(`HTTP error! status: ${response.status}`) }
  const data = await response.json()
  \<close>
  the three lines both loaders start their \<^verbatim>\<open>try\<close> block with.
\<close>

definition fetch_data :: "env \<Rightarrow> string \<Rightarrow> state \<Rightarrow> (js_error + jsval) \<times> state" where
  "fetch_data E url s =
     (let s1 = emit (NetFetch url) s in
      case fetch E (length (trace s)) url of
        Inl e \<Rightarrow> (Inl e, s1)
      | Inr response \<Rightarrow>
          if \<not> resp_ok response
          then (Inl (Error (''HTTP error! status: '' @ show_nat (resp_status response))), s1)
          else (resp_json response, s1))"

definition rebuilt_index :: "jsval \<Rightarrow> jsval \<Rightarrow> jsval" where
  "rebuilt_index data categories = JObj
     [(''generatedAt'', js_prop data ''generatedAt''),
      (''series'', js_prop data ''series''),
      (''seriesName'', js_prop data ''seriesName''),
      (''total'', js_prop data ''total''),
      (''categoryCount'', js_prop data ''categoryCount''),
      (''categories'', categories),
      (''schema'', js_prop data ''schema''),
      (''env'', js_prop data ''env'')]"

text \<open>The \<^verbatim>\<open>try\<close> block of \<^verbatim>\<open>loadSeriesIndex\<close> (lines 128 to 162).\<close>

definition loadSeriesIndex_try ::
  "env \<Rightarrow> series_config \<Rightarrow> string \<Rightarrow> state \<Rightarrow> (js_error + jsval) \<times> state" where
  "loadSeriesIndex_try E seriesConfig seriesId s =
     (case fetch_data E (indexUrl seriesConfig) s of
        (Inl e, s1) \<Rightarrow> (Inl e, s1)
      | (Inr data, s1) \<Rightarrow>
          if nullish data then (Inl (cannot_read ''blob''), s1)
          else
            let encoded = js_or (js_prop data ''blob'') (js_prop data ''payload'');
                (indexData, s2) =
                  (if truthy encoded then
                     (case decodeDataWithWorker E encoded s1 of
                        (Inr categories, s') \<Rightarrow> (rebuilt_index data categories, s')
                      | (Inl err, s') \<Rightarrow>
                          (data, emit (ConsoleWarn ''Failed to decode category index:'' err) s'))
                   else (data, s1))
            in (Inr indexData, s2\<lparr>seriesIndexCache := (seriesIndexCache s2)(seriesId \<mapsto> indexData)\<rparr>))"

definition loadSeriesIndex :: "env \<Rightarrow> string \<Rightarrow> state \<Rightarrow> (js_error + jsval) \<times> state" where
  "loadSeriesIndex E seriesId s =
     (if truthy (cached (seriesIndexCache s) seriesId)
      then (Inr (cached (seriesIndexCache s) seriesId), s)
      else
        case SERIES_CONFIG E seriesId of
          None \<Rightarrow> (Inl (Error (''Invalid series: '' @ seriesId)), s)
        | Some seriesConfig \<Rightarrow>
            (case loadSeriesIndex_try E seriesConfig seriesId s of
               (Inl e, s1) \<Rightarrow>
                 (Inl e, emit (ConsoleError (''Failed to load series index for '' @ seriesId @ '':'') e) s1)
             | (Inr indexData, s1) \<Rightarrow> (Inr indexData, s1)))"

text \<open>\<^verbatim>\<open>xs.map(f)\<close> with a callback that may throw: the first throw ends the map.\<close>

fun map_all :: "('a \<Rightarrow> js_error + 'b) \<Rightarrow> 'a list \<Rightarrow> js_error + 'b list" where
  "map_all f [] = Inr []"
| "map_all f (x # xs) =
     (case f x of
        Inl e \<Rightarrow> Inl e
      | Inr y \<Rightarrow> (case map_all f xs of Inl e \<Rightarrow> Inl e | Inr ys \<Rightarrow> Inr (y # ys)))"

text \<open>
  \<^verbatim>\<open>wallpaperList.map(w => transformWallpaperUrls(w))\<close>: \<open>wallpaperList\<close> is never null or
  undefined here, and only an array has a \<^verbatim>\<open>map\<close>.
\<close>

definition transform_list :: "env \<Rightarrow> jsval \<Rightarrow> js_error + jsval" where
  "transform_list E wallpaperList =
     (case wallpaperList of
        JArr ws \<Rightarrow>
          (case map_all (transformWallpaperUrls (buildImageUrl E)) ws of
             Inl e \<Rightarrow> Inl e
           | Inr ts \<Rightarrow> Inr (JArr ts))
      | _ \<Rightarrow> Inl (not_a_function ''wallpaperList.map''))"

text \<open>
  Lines 195 to 209 of \<^verbatim>\<open>loadCategory\<close>: the list of raw items of a fetched document.
  \<^verbatim>\<open>
  const encoded = data.blob || data.payload
  if (encoded) {
    try {
      const decoded = await decodeDataWithWorker(encoded)
      wallpaperList = decoded.wallpapers || decoded
    }
    catch (err) {
      console.warn(`Failed to decode category ${categoryFile}:`, err)
      wallpaperList = data.wallpapers || []
    }
  }
  else { wallpaperList = data.wallpapers || [] }
  \<close>
\<close>

definition decode_failed :: "jsval \<Rightarrow> jsval \<Rightarrow> js_error \<Rightarrow> state \<Rightarrow> jsval \<times> state" where
  "decode_failed categoryFile data err s =
     (js_or (js_prop data ''wallpapers'') (JArr []),
      emit (ConsoleWarn (''Failed to decode category '' @ js_toString categoryFile @ '':'') err) s)"

definition wallpaperList_of :: "env \<Rightarrow> jsval \<Rightarrow> jsval \<Rightarrow> state \<Rightarrow> jsval \<times> state" where
  "wallpaperList_of E categoryFile data s =
     (let encoded = js_or (js_prop data ''blob'') (js_prop data ''payload'') in
      if truthy encoded then
        (case decodeDataWithWorker E encoded s of
           (Inr decoded, s') \<Rightarrow>
             if nullish decoded then decode_failed categoryFile data (cannot_read ''wallpapers'') s'
             else (js_or (js_prop decoded ''wallpapers'') decoded, s')
         | (Inl err, s') \<Rightarrow> decode_failed categoryFile data err s')
      else (js_or (js_prop data ''wallpapers'') (JArr []), s))"

text \<open>The \<^verbatim>\<open>try\<close> block of \<^verbatim>\<open>loadCategory\<close> (lines 187 to 216).\<close>

definition loadCategory_try ::
  "env \<Rightarrow> series_config \<Rightarrow> jsval \<Rightarrow> string \<Rightarrow> state \<Rightarrow> (js_error + jsval) \<times> state" where
  "loadCategory_try E seriesConfig categoryFile cacheKey s =
     (case fetch_data E (categoryBaseUrl seriesConfig @ ''/'' @ js_toString categoryFile) s of
        (Inl e, s1) \<Rightarrow> (Inl e, s1)
      | (Inr data, s1) \<Rightarrow>
          if nullish data then (Inl (cannot_read ''blob''), s1)
          else
            let (wallpaperList, s2) = wallpaperList_of E categoryFile data s1 in
            case transform_list E wallpaperList of
              Inl e \<Rightarrow> (Inl e, s2)
            | Inr transformedList \<Rightarrow>
                (Inr transformedList,
                 s2\<lparr>categoryCache := (categoryCache s2)(cacheKey \<mapsto> transformedList)\<rparr>))"

definition cacheKey_of :: "string \<Rightarrow> jsval \<Rightarrow> string" where
  "cacheKey_of seriesId categoryFile = seriesId @ '':'' @ js_toString categoryFile"

definition loadCategory :: "env \<Rightarrow> string \<Rightarrow> jsval \<Rightarrow> state \<Rightarrow> (js_error + jsval) \<times> state" where
  "loadCategory E seriesId categoryFile s =
     (let cacheKey = cacheKey_of seriesId categoryFile in
      if truthy (cached (categoryCache s) cacheKey)
      then (Inr (cached (categoryCache s) cacheKey), s)
      else
        case SERIES_CONFIG E seriesId of
          None \<Rightarrow> (Inl (Error (''Invalid series: '' @ seriesId)), s)
        | Some seriesConfig \<Rightarrow>
            (case loadCategory_try E seriesConfig categoryFile cacheKey s of
               (Inl e, s1) \<Rightarrow>
                 (Inl e,
                  emit (ConsoleError (''Failed to load category '' @ js_toString categoryFile @ '':'') e) s1)
             | (Inr transformedList, s1) \<Rightarrow> (Inr transformedList, s1)))"

section \<open>Lookups in the merged list, cache clearing\<close>

text \<open>\<^verbatim>\<open>wallpapers.value.findIndex(w => w.id === id)\<close>, counting from \<open>i\<close>.\<close>

fun findIndex_from :: "int \<Rightarrow> jsval \<Rightarrow> jsval list \<Rightarrow> js_error + int" where
  "findIndex_from i ident [] = Inr (- 1)"
| "findIndex_from i ident (w # ws) =
     (if nullish w then Inl (cannot_read ''id'')
      else if js_strict_equals (js_prop w ''id'') ident then Inr i
      else findIndex_from (i + 1) ident ws)"

definition getWallpaperIndex :: "jsval \<Rightarrow> state \<Rightarrow> js_error + int" where
  "getWallpaperIndex ident s = findIndex_from 0 ident (wallpapers s)"

definition getPrevWallpaper :: "jsval \<Rightarrow> state \<Rightarrow> js_error + jsval" where
  "getPrevWallpaper currentId s =
     (case getWallpaperIndex currentId s of
        Inl e \<Rightarrow> Inl e
      | Inr index \<Rightarrow>
          if index > 0 then Inr (js_index (wallpapers s) (index - 1)) else Inr JNull)"

definition getNextWallpaper :: "jsval \<Rightarrow> state \<Rightarrow> js_error + jsval" where
  "getNextWallpaper currentId s =
     (case getWallpaperIndex currentId s of
        Inl e \<Rightarrow> Inl e
      | Inr index \<Rightarrow>
          if index < int (length (wallpapers s)) - 1
          then Inr (js_index (wallpapers s) (index + 1))
          else Inr JNull)"

text \<open>
  \<^verbatim>\<open>
  function clearCache(seriesId) {
    if (seriesId) {
      delete seriesIndexCache.value[seriesId]
      Object.keys(categoryCache.value).forEach((key) => {
        if (key.startsWith(`${seriesId}:`)) { delete categoryCache.value[key] }
      })
    }
    else {
      seriesIndexCache.value = {}
      categoryCache.value = {}
    }
  }
  \<close>
\<close>

definition clearCache :: "jsval \<Rightarrow> state \<Rightarrow> state" where
  "clearCache seriesId s =
     (if truthy seriesId then
        s\<lparr>seriesIndexCache := (seriesIndexCache s)(js_toString seriesId := None),
          categoryCache :=
            (\<lambda>key. if prefix (js_toString seriesId @ '':'') key then None else categoryCache s key)\<rparr>
      else s\<lparr>seriesIndexCache := Map.empty, categoryCache := Map.empty\<rparr>)"

section \<open>Progressive loader\<close>

text \<open>
  The store's functions are \<^verbatim>\<open>async\<close>. A call is modelled run to completion: the state it
  returns is the state when its promise settles, \<open>Inl\<close> for a rejection. The calls that
  \<^verbatim>\<open>Promise.all\<close> awaits together are run one after the other in the order of the array;
  how their network round trips overlap is not modelled.
\<close>

text \<open>
  \<^verbatim>\<open>Promise.all(cats.map(cat => loadCategory(seriesId, cat.file)))\<close>. The \<^verbatim>\<open>map\<close> starts one
  load for every category in order; reading \<^verbatim>\<open>cat.file\<close> of a null entry throws out of the
  \<^verbatim>\<open>map\<close>, with the loads before it started and none after it. Every started load runs to
  its end whatever the others do. \<^verbatim>\<open>Promise.all\<close> then resolves to all the results, or
  rejects with a rejection among them (here the first in the order of the array).
\<close>

fun run_loads :: "env \<Rightarrow> string \<Rightarrow> jsval list \<Rightarrow> state \<Rightarrow> (js_error + jsval) list \<times> state" where
  "run_loads E seriesId [] s = ([], s)"
| "run_loads E seriesId (cat # cats) s =
     (let (r, s1) = loadCategory E seriesId (js_prop cat ''file'') s;
          (rs, s2) = run_loads E seriesId cats s1
      in (r # rs, s2))"

fun promise_all :: "(js_error + jsval) list \<Rightarrow> js_error + jsval list" where
  "promise_all [] = Inr []"
| "promise_all (Inl e # rs) = Inl e"
| "promise_all (Inr v # rs) = (case promise_all rs of Inl e \<Rightarrow> Inl e | Inr vs \<Rightarrow> Inr (v # vs))"

definition load_all :: "env \<Rightarrow> string \<Rightarrow> jsval list \<Rightarrow> state \<Rightarrow> (js_error + jsval list) \<times> state" where
  "load_all E seriesId cats s =
     (let started = takeWhile (\<lambda>cat. \<not> nullish cat) cats;
          (rs, s1) = run_loads E seriesId started s
      in if length started < length cats then (Inl (cannot_read ''file''), s1)
         else (promise_all rs, s1))"

text \<open>\<^verbatim>\<open>cats.filter(cat => !loadedCategories.value.has(cat.file))\<close>\<close>

definition filter_unloaded :: "jsval list \<Rightarrow> state \<Rightarrow> js_error + jsval list" where
  "filter_unloaded cats s =
     (if list_ex nullish cats then Inl (cannot_read ''file'')
      else Inr (filter (\<lambda>cat. js_prop cat ''file'' \<notin> loadedCategories s) cats))"

text \<open>\<^verbatim>\<open>cats.forEach((cat) => { loadedCategories.value.add(cat.file) })\<close>\<close>

definition mark_loaded :: "jsval list \<Rightarrow> state \<Rightarrow> state" where
  "mark_loaded cats s =
     s\<lparr>loadedCategories := loadedCategories s \<union> set (map (\<lambda>cat. js_prop cat ''file'') cats)\<rparr>"

definition BATCH_SIZE :: nat where
  "BATCH_SIZE = 3"

text \<open>
  \<^verbatim>\<open>
  for (let i = 0; i < categories.length; i += BATCH_SIZE) {
    batches.push(categories.slice(i, i + BATCH_SIZE))
  }
  \<close>
\<close>

function mk_batches :: "nat \<Rightarrow> jsval list \<Rightarrow> jsval list list" where
  "mk_batches i categories =
     (if i < length categories
      then take BATCH_SIZE (drop i categories) # mk_batches (i + BATCH_SIZE) categories
      else [])"
  by pat_completeness auto

termination
  by (relation "measure (\<lambda>(i, categories). length categories - i)") (auto simp: BATCH_SIZE_def)

declare mk_batches.simps [simp del]

text \<open>
  The loop over the batches (lines 289 to 318). The filter stands before the \<^verbatim>\<open>try\<close>, so
  what it throws ends the whole function; what the loads of a batch throw is caught, logged
  and the loop goes on. The pause between two batches changes nothing in the state.
  \<^verbatim>\<open>
  for (const batch of batches) {
    const unloadedBatch = batch.filter(cat => !loadedCategories.value.has(cat.file))
    if (unloadedBatch.length === 0) continue
    try {
      const batchPromises = unloadedBatch.map(cat => loadCategory(seriesId, cat.file))
      const batchResults = await Promise.all(batchPromises)
      const batchData = batchResults.flat()
      wallpapers.value = [...wallpapers.value, ...batchData]
      unloadedBatch.forEach((cat) => { loadedCategories.value.add(cat.file) })
      await new Promise(resolve => setTimeout(resolve, 150))
    }
    catch (e) { console.warn(`Failed to load batch:`, e) }
  }
  \<close>
\<close>

definition load_batch :: "env \<Rightarrow> string \<Rightarrow> jsval list \<Rightarrow> state \<Rightarrow> state" where
  "load_batch E seriesId unloadedBatch s =
     (case load_all E seriesId unloadedBatch s of
        (Inr batchResults, s1) \<Rightarrow>
          mark_loaded unloadedBatch (s1\<lparr>wallpapers := wallpapers s1 @ js_flat batchResults\<rparr>)
      | (Inl e, s1) \<Rightarrow> emit (ConsoleWarn ''Failed to load batch:'' e) s1)"

fun load_batches :: "env \<Rightarrow> string \<Rightarrow> jsval list list \<Rightarrow> state \<Rightarrow> (js_error + unit) \<times> state" where
  "load_batches E seriesId [] s = (Inr (), s)"
| "load_batches E seriesId (batch # batches) s =
     (case filter_unloaded batch s of
        Inl e \<Rightarrow> (Inl e, s)
      | Inr unloadedBatch \<Rightarrow>
          if unloadedBatch = [] then load_batches E seriesId batches s
          else load_batches E seriesId batches (load_batch E seriesId unloadedBatch s))"

definition loadRemainingCategories ::
  "env \<Rightarrow> string \<Rightarrow> jsval list \<Rightarrow> state \<Rightarrow> (js_error + unit) \<times> state" where
  "loadRemainingCategories E seriesId categories s =
     (case load_batches E seriesId (mk_batches 0 categories) s of
        (Inl e, s1) \<Rightarrow> (Inl e, s1)
      | (Inr u, s1) \<Rightarrow>
          (Inr (), s1\<lparr>isBackgroundLoading := False, initialLoadedCount := length (wallpapers s1)\<rparr>))"

text \<open>
  \<^verbatim>\<open>indexData.categories\<close> as the array that \<^verbatim>\<open>slice\<close>, \<^verbatim>\<open>map\<close> and \<^verbatim>\<open>filter\<close> need:
  anything else throws a TypeError at the first of these calls.
\<close>

definition categories_of :: "jsval \<Rightarrow> js_error + jsval list" where
  "categories_of indexData =
     (if nullish indexData then Inl (cannot_read ''categories'')
      else case js_prop indexData ''categories'' of
             JArr categories \<Rightarrow> Inr categories
           | JUndefined \<Rightarrow> Inl (cannot_read ''slice'')
           | JNull \<Rightarrow> Inl (cannot_read ''slice'')
           | _ \<Rightarrow> Inl (not_a_function ''indexData.categories''))"

definition default_error_message :: string where
  "default_error_message =
     [CHR 0xE5, CHR 0x8A, CHR 0xA0, CHR 0xE8, CHR 0xBD, CHR 0xBD, CHR 0xE5, CHR 0xA3, CHR 0x81,
      CHR 0xE7, CHR 0xBA, CHR 0xB8, CHR 0xE6, CHR 0x95, CHR 0xB0, CHR 0xE6, CHR 0x8D, CHR 0xAE,
      CHR 0xE5, CHR 0xA4, CHR 0xB1, CHR 0xE8, CHR 0xB4, CHR 0xA5]"

text \<open>
  The \<^verbatim>\<open>try\<close> block of \<^verbatim>\<open>initSeries\<close> (lines 241 to 265). The call of
  \<^verbatim>\<open>loadRemainingCategories\<close> is not awaited: the block returns the categories that call was
  given, for the caller to run afterwards.
\<close>

definition initSeries_try ::
  "env \<Rightarrow> string \<Rightarrow> state \<Rightarrow> (js_error + jsval list option) \<times> state" where
  "initSeries_try E seriesId s =
     (case loadSeriesIndex E seriesId s of
        (Inl e, s1) \<Rightarrow> (Inl e, s1)
      | (Inr indexData, s1) \<Rightarrow>
          (case categories_of indexData of
             Inl e \<Rightarrow> (Inl e, s1)
           | Inr categories \<Rightarrow>
               let initialCategories = take 3 categories in
               (case load_all E seriesId initialCategories s1 of
                  (Inl e, s2) \<Rightarrow> (Inl e, s2)
                | (Inr categoryDataArrays, s2) \<Rightarrow>
                    let s3 = s2\<lparr>wallpapers := js_flat categoryDataArrays\<rparr>;
                        s4 = mark_loaded initialCategories s3;
                        s5 = s4\<lparr>initialLoadedCount := length (wallpapers s4)\<rparr>;
                        remainingCategories = drop 3 categories
                    in if length remainingCategories > 0
                       then (Inr (Some remainingCategories), s5\<lparr>isBackgroundLoading := True\<rparr>)
                       else (Inr None, s5))))"

text \<open>
  Lines 233 to 238:
  \<^verbatim>\<open>
  loading.value = true
  error.value = null
  currentLoadedSeries.value = seriesId
  loadedCategories.value = new Set()
  isBackgroundLoading.value = false
  initialLoadedCount.value = 0
  \<close>
\<close>

definition reset_for :: "string \<Rightarrow> state \<Rightarrow> state" where
  "reset_for seriesId s =
     s\<lparr>loading := True, error := None, currentLoadedSeries := seriesId,
       loadedCategories := {}, isBackgroundLoading := False, initialLoadedCount := 0\<rparr>"

text \<open>
  \<^verbatim>\<open>initSeries(seriesId, forceRefresh)\<close>: how its promise settles, the state then, and the
  background call it left running, if any.
\<close>

definition initSeries ::
  "env \<Rightarrow> string \<Rightarrow> bool \<Rightarrow> state \<Rightarrow> (js_error + unit) \<times> state \<times> jsval list option" where
  "initSeries E seriesId forceRefresh s =
     (if \<not> forceRefresh \<and> currentLoadedSeries s = seriesId \<and> length (wallpapers s) > 0
      then (Inr (), s, None)
      else
        case initSeries_try E seriesId (reset_for seriesId s) of
             (Inr background, s1) \<Rightarrow> (Inr (), s1\<lparr>loading := False\<rparr>, background)
           | (Inl e, s1) \<Rightarrow>
               (Inr (),
                (emit (ConsoleError (''Failed to init series '' @ seriesId @ '':'') e) s1)
                  \<lparr>error := Some (if message e \<noteq> [] then message e else default_error_message),
                   wallpapers := [], loading := False\<rparr>,
                None))"

text \<open>The background call of an activation, run to its end.\<close>

definition run_background :: "env \<Rightarrow> string \<Rightarrow> jsval list option \<Rightarrow> state \<Rightarrow> state" where
  "run_background E seriesId background s =
     (case background of
        None \<Rightarrow> s
      | Some remainingCategories \<Rightarrow> snd (loadRemainingCategories E seriesId remainingCategories s))"

text \<open>An activation followed by its background call, run to the end.\<close>

definition activate_and_wait :: "env \<Rightarrow> string \<Rightarrow> bool \<Rightarrow> state \<Rightarrow> state" where
  "activate_and_wait E seriesId forceRefresh s =
     (case initSeries E seriesId forceRefresh s of
        (r, s1, background) \<Rightarrow> run_background E seriesId background s1)"

text \<open>
  \<^verbatim>\<open>
  async function loadAllCategories(seriesId) {
    const indexData = seriesIndexCache.value[seriesId]
    if (!indexData) {
      await loadSeriesIndex(seriesId)
      return
    }
    const unloadedCategories = indexData.categories.filter(cat =>
      !loadedCategories.value.has(cat.file),
    )
    if (unloadedCategories.length === 0) { return }
    loading.value = true
    try { await loadRemainingCategories(seriesId, unloadedCategories) }
    finally { loading.value = false }
  }
  \<close>
\<close>

definition loadAllCategories :: "env \<Rightarrow> string \<Rightarrow> state \<Rightarrow> (js_error + unit) \<times> state" where
  "loadAllCategories E seriesId s =
     (let indexData = cached (seriesIndexCache s) seriesId in
      if \<not> truthy indexData then
        (case loadSeriesIndex E seriesId s of
           (Inl e, s1) \<Rightarrow> (Inl e, s1)
         | (Inr loadedIndex, s1) \<Rightarrow> (Inr (), s1))
      else
        case categories_of indexData of
          Inl e \<Rightarrow> (Inl e, s)
        | Inr categories \<Rightarrow>
            (case filter_unloaded categories s of
               Inl e \<Rightarrow> (Inl e, s)
             | Inr unloadedCategories \<Rightarrow>
                 if unloadedCategories = [] then (Inr (), s)
                 else
                   (case loadRemainingCategories E seriesId unloadedCategories (s\<lparr>loading := True\<rparr>) of
                      (r, s1) \<Rightarrow> (r, s1\<lparr>loading := False\<rparr>))))"

section \<open>Counting the effects\<close>

fun is_fetch :: "event \<Rightarrow> bool" where
  "is_fetch (NetFetch u) = True"
| "is_fetch e = False"

definition fetch_count :: "state \<Rightarrow> nat" where
  "fetch_count s = length (filter is_fetch (trace s))"

section \<open>A sample deployment\<close>

text \<open>
  One configured series, \<^verbatim>\<open>desktop\<close>, whose manifest lists the given files; every category
  document is plain and holds one item named after its file; the files in \<open>missing\<close>
  answer 404. There is no worker and the wire decoder rejects every payload. It is used to
  run the store on concrete inputs.
\<close>

definition demo_config :: series_config where
  "demo_config =
     \<lparr>indexUrl = ''/data/desktop/index.json'', categoryBaseUrl = ''/data/desktop'',
      dataUrl = ''/data/desktop.json''\<rparr>"

definition demo_manifest :: "string list \<Rightarrow> jsval" where
  "demo_manifest files =
     JObj [(''series'', JStr ''desktop''),
           (''categories'', JArr (map (\<lambda>f. JObj [(''file'', JStr f)]) files))]"

definition demo_category :: "string \<Rightarrow> jsval" where
  "demo_category f = JObj [(''wallpapers'', JArr [JObj [(''id'', JStr f), (''path'', JStr f)]])]"

definition not_found :: response where
  "not_found = \<lparr>resp_ok = False, resp_status = 404, resp_json = Inl (SyntaxError ''Unexpected token'')\<rparr>"

definition found :: "jsval \<Rightarrow> response" where
  "found doc = \<lparr>resp_ok = True, resp_status = 200, resp_json = Inr doc\<rparr>"

definition demo_fetch :: "string list \<Rightarrow> string list \<Rightarrow> nat \<Rightarrow> string \<Rightarrow> js_error + response" where
  "demo_fetch files missing t url =
     (if url = ''/data/desktop/index.json'' then Inr (found (demo_manifest files))
      else case filter (\<lambda>f. url = ''/data/desktop/'' @ f) files of
             [] \<Rightarrow> Inr not_found
           | f # fs \<Rightarrow> if f \<in> set missing then Inr not_found else Inr (found (demo_category f)))"

definition demo_env :: "string list \<Rightarrow> string list \<Rightarrow> env" where
  "demo_env files missing =
     \<lparr>SERIES_CONFIG = [''desktop'' \<mapsto> demo_config],
      buildImageUrl = cdn_buildImageUrl,
      fetch = demo_fetch files missing,
      isWorkerAvailable = (\<lambda>t. False),
      workerDecodeAndParse = (\<lambda>t encoded. Inl (Error ''worker unavailable'')),
      decodeData = (\<lambda>encoded. Inl (Error ''bad payload'')),
      JSON_parse = (\<lambda>jsonStr. Inl (SyntaxError ''Unexpected token''))\<rparr>"

text \<open>The resolved item of the sample category \<open>f\<close>.\<close>

definition demo_item :: "string \<Rightarrow> jsval" where
  "demo_item f =
     JObj [(''id'', JStr f), (''path'', JStr f), (''url'', JStr (''https://cdn.example/'' @ f)),
           (''thumbnailUrl'', JStr []), (''previewUrl'', JNull),
           (''downloadUrl'', JStr (''https://cdn.example/'' @ f))]"

text \<open>The sample deployment with a network that answers every request with \<open>doc\<close>.\<close>

definition serving :: "jsval \<Rightarrow> env" where
  "serving doc = (demo_env [] [])\<lparr>fetch := (\<lambda>t url. Inr (found doc))\<rparr>"

text \<open>A category document whose blob is garbage beside a plain list; the sample decoder rejects the blob.\<close>

definition garbled_category :: jsval where
  "garbled_category =
     JObj [(''blob'', JStr ''%%%''),
           (''wallpapers'', JArr [JObj [(''id'', JStr ''g''), (''path'', JStr ''g'')]])]"

section \<open>Notions used in the properties\<close>

text \<open>What a load leaves alone: every ref but the two caches (and the trace).\<close>

definition refs_unchanged :: "state \<Rightarrow> state \<Rightarrow> bool" where
  "refs_unchanged s s' \<longleftrightarrow>
     wallpapers s' = wallpapers s \<and> currentLoadedSeries s' = currentLoadedSeries s
   \<and> loadedCategories s' = loadedCategories s \<and> loading s' = loading s \<and> error s' = error s
   \<and> isBackgroundLoading s' = isBackgroundLoading s
   \<and> initialLoadedCount s' = initialLoadedCount s"

definition trace_only :: "state \<Rightarrow> state \<Rightarrow> bool" where
  "trace_only s s' \<longleftrightarrow>
     refs_unchanged s s' \<and> seriesIndexCache s' = seriesIndexCache s
   \<and> categoryCache s' = categoryCache s"

text \<open>
  The decode of a payload fails: the worker, whenever it is asked, rejects, and in the
  calling context either \<^verbatim>\<open>decodeData\<close> or \<^verbatim>\<open>JSON.parse\<close> throws.
\<close>

definition decode_fails :: "env \<Rightarrow> jsval \<Rightarrow> bool" where
  "decode_fails E encoded \<longleftrightarrow>
     (\<forall>t. isl (workerDecodeAndParse E t encoded))
   \<and> (case decodeData E encoded of Inl e \<Rightarrow> True | Inr jsonStr \<Rightarrow> isl (JSON_parse E jsonStr))"

fun is_string :: "jsval \<Rightarrow> bool" where
  "is_string (JStr s) = True"
| "is_string v = False"

text \<open>
  The Item shape of the wire format, as far as URL resolution reads it: each of the four
  URL fields, when it carries a value, carries a string.
\<close>

definition item_typed :: "jsval \<Rightarrow> bool" where
  "item_typed w \<longleftrightarrow>
     list_all (\<lambda>k. truthy (js_prop w k) \<longrightarrow> is_string (js_prop w k))
       [''url'', ''thumbnailUrl'', ''previewUrl'', ''downloadUrl'']"

fun items_typed :: "jsval \<Rightarrow> bool" where
  "items_typed (JArr ws) = list_all item_typed ws"
| "items_typed v = True"

definition doc_typed :: "jsval \<Rightarrow> bool" where
  "doc_typed d \<longleftrightarrow> items_typed d \<and> items_typed (js_prop d ''wallpapers'')"

text \<open>Every document the network or a decoder delivers has items of that shape.\<close>

definition env_typed :: "env \<Rightarrow> bool" where
  "env_typed E \<longleftrightarrow>
     (\<forall>t x d. workerDecodeAndParse E t x = Inr d \<longrightarrow> doc_typed d)
   \<and> (\<forall>jsonStr d. JSON_parse E jsonStr = Inr d \<longrightarrow> doc_typed d)
   \<and> (\<forall>t url r d. fetch E t url = Inr r \<longrightarrow> resp_json r = Inr d \<longrightarrow> doc_typed d)"

text \<open>
  A resolved item: \<^verbatim>\<open>url\<close>, \<^verbatim>\<open>thumbnailUrl\<close> and \<^verbatim>\<open>downloadUrl\<close> are strings, \<^verbatim>\<open>previewUrl\<close>
  is a string or \<^verbatim>\<open>null\<close> (\<open>js_prop\<close> is \<open>JUndefined\<close> on an absent field).
\<close>

definition urls_total :: "jsval \<Rightarrow> bool" where
  "urls_total item \<longleftrightarrow>
     is_string (js_prop item ''url'') \<and> is_string (js_prop item ''thumbnailUrl'')
   \<and> is_string (js_prop item ''downloadUrl'')
   \<and> (is_string (js_prop item ''previewUrl'') \<or> js_prop item ''previewUrl'' = JNull)"

fun resolved_list :: "jsval \<Rightarrow> bool" where
  "resolved_list (JArr items) = list_all urls_total items"
| "resolved_list v = False"

definition cache_resolved :: "state \<Rightarrow> bool" where
  "cache_resolved s \<longleftrightarrow>
     (\<forall>key v. categoryCache s key = Some v \<longrightarrow> truthy v \<longrightarrow> resolved_list v)"



text \<open>
  A category key is \<^verbatim>\<open>`${seriesId}:${categoryFile}`\<close>: its series component is what stands
  before the first colon.
\<close>

definition key_series :: "string \<Rightarrow> string option" where
  "key_series key =
     (if CHR '':'' \<in> set key then Some (takeWhile (\<lambda>c. c \<noteq> CHR '':'') key) else None)"

text \<open>
  The own entries of the index cache are indexes of configured series, none under a name
  that is inherited. The store starts so and every operation keeps it so.
\<close>

definition index_cache_configured :: "env \<Rightarrow> state \<Rightarrow> bool" where
  "index_cache_configured E s \<longleftrightarrow>
     (\<forall>sid. seriesIndexCache s sid \<noteq> None \<longrightarrow>
        SERIES_CONFIG E sid \<noteq> None \<and> map_of object_prototype sid = None)"


text \<open>
  What resolution guarantees whatever the item carries: \<^verbatim>\<open>url\<close>, \<^verbatim>\<open>thumbnailUrl\<close> and
  \<^verbatim>\<open>downloadUrl\<close> are a string or a truthy value, \<^verbatim>\<open>previewUrl\<close> is a string, \<^verbatim>\<open>null\<close> or
  a truthy value; none is undefined or absent.
\<close>

definition urls_defined :: "jsval \<Rightarrow> bool" where
  "urls_defined item \<longleftrightarrow>
     (is_string (js_prop item ''url'') \<or> truthy (js_prop item ''url''))
   \<and> (is_string (js_prop item ''thumbnailUrl'') \<or> truthy (js_prop item ''thumbnailUrl''))
   \<and> (is_string (js_prop item ''downloadUrl'') \<or> truthy (js_prop item ''downloadUrl''))
   \<and> (is_string (js_prop item ''previewUrl'') \<or> js_prop item ''previewUrl'' = JNull
        \<or> truthy (js_prop item ''previewUrl''))"

fun defined_list :: "jsval \<Rightarrow> bool" where
  "defined_list (JArr items) = list_all urls_defined items"
| "defined_list v = False"

definition cache_defined :: "state \<Rightarrow> bool" where
  "cache_defined s \<longleftrightarrow>
     (\<forall>key v. categoryCache s key = Some v \<longrightarrow> truthy v \<longrightarrow> defined_list v)"

section \<open>What the loaders leave unchanged\<close>

lemma emit_fields [simp]:
  "seriesIndexCache (emit ev s) = seriesIndexCache s"
  "categoryCache (emit ev s) = categoryCache s"
  "wallpapers (emit ev s) = wallpapers s"
  "currentLoadedSeries (emit ev s) = currentLoadedSeries s"
  "loadedCategories (emit ev s) = loadedCategories s"
  "loading (emit ev s) = loading s"
  "error (emit ev s) = error s"
  "isBackgroundLoading (emit ev s) = isBackgroundLoading s"
  "initialLoadedCount (emit ev s) = initialLoadedCount s"
  "trace (emit ev s) = trace s @ [ev]"
  by (simp_all add: emit_def)

lemma refs_unchanged_refl [simp]: "refs_unchanged s s"
  by (simp add: refs_unchanged_def)

lemma refs_unchanged_trans:
  "refs_unchanged s s1 \<Longrightarrow> refs_unchanged s1 s2 \<Longrightarrow> refs_unchanged s s2"
  by (simp add: refs_unchanged_def)

lemma refs_unchanged_emit [simp]:
  "refs_unchanged s (emit ev s') \<longleftrightarrow> refs_unchanged s s'"
  "refs_unchanged (emit ev s) s' \<longleftrightarrow> refs_unchanged s s'"
  by (simp_all add: refs_unchanged_def emit_def)

lemma refs_unchanged_caches [simp]:
  "refs_unchanged s (s'\<lparr>seriesIndexCache := c\<rparr>) \<longleftrightarrow> refs_unchanged s s'"
  "refs_unchanged s (s'\<lparr>categoryCache := c'\<rparr>) \<longleftrightarrow> refs_unchanged s s'"
  "refs_unchanged (s\<lparr>seriesIndexCache := c\<rparr>) s' \<longleftrightarrow> refs_unchanged s s'"
  "refs_unchanged (s\<lparr>categoryCache := c'\<rparr>) s' \<longleftrightarrow> refs_unchanged s s'"
  by (simp_all add: refs_unchanged_def)

lemma trace_only_refl [simp]: "trace_only s s"
  by (simp add: trace_only_def)

lemma trace_only_trans: "trace_only s s1 \<Longrightarrow> trace_only s1 s2 \<Longrightarrow> trace_only s s2"
  by (auto simp: trace_only_def intro: refs_unchanged_trans)

lemma trace_only_emit [simp]:
  "trace_only s (emit ev s') \<longleftrightarrow> trace_only s s'"
  "trace_only (emit ev s) s' \<longleftrightarrow> trace_only s s'"
  by (simp_all add: trace_only_def)

lemma decodeMainThread_trace_only: "decodeMainThread E x s = (r, s') \<Longrightarrow> trace_only s s'"
  by (auto simp: decodeMainThread_def Let_def split: sum.splits)

lemma decodeDataWithWorker_trace_only: "decodeDataWithWorker E x s = (r, s') \<Longrightarrow> trace_only s s'"
  by (auto simp: decodeDataWithWorker_def split: if_splits sum.splits
           dest!: decodeMainThread_trace_only)

lemma fetch_data_trace_only: "fetch_data E url s = (r, s') \<Longrightarrow> trace_only s s'"
  by (auto simp: fetch_data_def Let_def split: sum.splits if_splits)

lemma wallpaperList_of_trace_only: "wallpaperList_of E f data s = (wl, s') \<Longrightarrow> trace_only s s'"
  by (auto simp: wallpaperList_of_def decode_failed_def Let_def
           split: if_splits sum.splits prod.splits dest!: decodeDataWithWorker_trace_only)

lemma loadCategory_try_Inr:
  assumes "loadCategory_try E cfg f key s = (Inr v, s')"
  shows "\<exists>data s1 wl s2.
           fetch_data E (categoryBaseUrl cfg @ ''/'' @ js_toString f) s = (Inr data, s1)
         \<and> \<not> nullish data
         \<and> wallpaperList_of E f data s1 = (wl, s2)
         \<and> transform_list E wl = Inr v
         \<and> s' = s2\<lparr>categoryCache := (categoryCache s2)(key \<mapsto> v)\<rparr>"
  using assms
  by (auto simp: loadCategory_try_def Let_def split: prod.splits sum.splits if_splits)

lemma loadCategory_try_Inl:
  assumes "loadCategory_try E cfg f key s = (Inl e, s')"
  shows "trace_only s s'"
  using assms
  by (auto simp: loadCategory_try_def Let_def split: prod.splits sum.splits if_splits
           dest!: fetch_data_trace_only wallpaperList_of_trace_only intro: trace_only_trans)

lemma loadCategory_try_frame:
  assumes "loadCategory_try E cfg f key s = (r, s')"
  shows "refs_unchanged s s' \<and> seriesIndexCache s' = seriesIndexCache s
       \<and> categoryCache s' = (case r of Inl e \<Rightarrow> categoryCache s | Inr v \<Rightarrow> (categoryCache s)(key \<mapsto> v))"
proof (cases r)
  case (Inl e)
  with assms have "trace_only s s'"
    by (simp add: loadCategory_try_Inl)
  with Inl show ?thesis
    by (simp add: trace_only_def)
next
  case (Inr v)
  with assms obtain data s1 wl s2 where
    a: "fetch_data E (categoryBaseUrl cfg @ ''/'' @ js_toString f) s = (Inr data, s1)"
    and b: "wallpaperList_of E f data s1 = (wl, s2)"
    and c: "s' = s2\<lparr>categoryCache := (categoryCache s2)(key \<mapsto> v)\<rparr>"
    using loadCategory_try_Inr by blast
  have "trace_only s s2"
    using fetch_data_trace_only [OF a] wallpaperList_of_trace_only [OF b]
    by (rule trace_only_trans)
  with c Inr show ?thesis
    by (simp add: trace_only_def)
qed

lemma inherited_truthy: "map_of object_prototype k = Some v \<Longrightarrow> truthy v"
proof -
  assume "map_of object_prototype k = Some v"
  then have "(k, v) \<in> set object_prototype" by (rule map_of_SomeD)
  then show ?thesis unfolding object_prototype_def by auto
qed

lemma inherited_no_colon: "map_of object_prototype k = Some v \<Longrightarrow> CHR '':'' \<notin> set k"
proof -
  assume "map_of object_prototype k = Some v"
  then have "(k, v) \<in> set object_prototype" by (rule map_of_SomeD)
  then show ?thesis unfolding object_prototype_def by auto
qed

lemma inherited_colon: "CHR '':'' \<in> set k \<Longrightarrow> inherited k = JUndefined"
  by (cases "map_of object_prototype k") (auto simp: inherited_def dest: inherited_no_colon)

lemma not_inherited: "\<not> truthy (inherited k) \<Longrightarrow> map_of object_prototype k = None"
  by (cases "map_of object_prototype k") (auto simp: inherited_def dest: inherited_truthy)

lemma cached_cacheKey_of:
  "cached m (cacheKey_of sid f) = (case m (cacheKey_of sid f) of None \<Rightarrow> JUndefined | Some v \<Rightarrow> v)"
  by (simp add: cached_def cacheKey_of_def inherited_colon split: option.splits)

lemma cached_truthy_update:
  "truthy (cached m (cacheKey_of sid f)) \<Longrightarrow>
   m(cacheKey_of sid f \<mapsto> cached m (cacheKey_of sid f)) = m"
  by (auto simp: cached_cacheKey_of split: option.splits)

lemma loadCategory_frame:
  assumes "loadCategory E sid f s = (r, s')"
  shows "refs_unchanged s s' \<and> seriesIndexCache s' = seriesIndexCache s
       \<and> categoryCache s' =
           (case r of Inl e \<Rightarrow> categoryCache s
            | Inr v \<Rightarrow> (categoryCache s)(cacheKey_of sid f \<mapsto> v))"
proof (cases "truthy (cached (categoryCache s) (cacheKey_of sid f))")
  case True
  with assms show ?thesis
    by (auto simp: loadCategory_def cached_truthy_update)
next
  case False
  show ?thesis
  proof (cases "SERIES_CONFIG E sid")
    case None
    with False assms show ?thesis
      by (auto simp: loadCategory_def)
  next
    case (Some cfg)
    obtain r0 s0 where t: "loadCategory_try E cfg f (cacheKey_of sid f) s = (r0, s0)"
      by (cases "loadCategory_try E cfg f (cacheKey_of sid f) s")
    from loadCategory_try_frame [OF t] False Some assms t show ?thesis
      by (cases r0) (auto simp: loadCategory_def)
  qed
qed

lemma loadCategory_refs: "loadCategory E sid f s = (r, s') \<Longrightarrow> refs_unchanged s s'"
  using loadCategory_frame by blast

lemma run_loads_refs: "run_loads E sid cats s = (rs, s') \<Longrightarrow> refs_unchanged s s'"
proof (induction cats arbitrary: s rs s')
  case Nil
  then show ?case by simp
next
  case (Cons cat cats)
  obtain r s1 where a: "loadCategory E sid (js_prop cat ''file'') s = (r, s1)"
    by (cases "loadCategory E sid (js_prop cat ''file'') s")
  obtain rs' s2 where b: "run_loads E sid cats s1 = (rs', s2)"
    by (cases "run_loads E sid cats s1")
  from Cons.prems a b have "s' = s2" by simp
  with loadCategory_refs [OF a] Cons.IH [OF b] show ?case
    by (blast intro: refs_unchanged_trans)
qed

lemma load_all_refs: "load_all E sid cats s = (r, s') \<Longrightarrow> refs_unchanged s s'"
  by (auto simp: load_all_def Let_def split: prod.splits if_splits dest!: run_loads_refs)



lemma filter_unloaded_Inr:
  "filter_unloaded cats s = Inr unloaded \<Longrightarrow>
   (\<forall>cat\<in>set cats. \<not> nullish cat)
   \<and> unloaded = filter (\<lambda>cat. js_prop cat ''file'' \<notin> loadedCategories s) cats"
  by (auto simp: filter_unloaded_def list_ex_iff split: if_splits)

lemma load_all_no_null:
  "\<forall>cat\<in>set cats. \<not> nullish cat \<Longrightarrow>
   load_all E sid cats s = (promise_all (fst (run_loads E sid cats s)), snd (run_loads E sid cats s))"
proof -
  assume "\<forall>cat\<in>set cats. \<not> nullish cat"
  then have tw: "takeWhile (\<lambda>cat. \<not> nullish cat) cats = cats"
    by (simp add: takeWhile_eq_all_conv)
  show ?thesis
    unfolding load_all_def Let_def tw by (simp split: prod.splits)
qed

section \<open>The index cache holds configured series only\<close>

lemma loadSeriesIndex_try_index:
  assumes "loadSeriesIndex_try E cfg S s = (r, s')"
  shows "seriesIndexCache s' = (case r of Inl e \<Rightarrow> seriesIndexCache s | Inr m \<Rightarrow> (seriesIndexCache s)(S \<mapsto> m))"
  using assms
  by (auto simp: loadSeriesIndex_try_def Let_def trace_only_def
           split: prod.splits sum.splits if_splits
           dest!: fetch_data_trace_only decodeDataWithWorker_trace_only)

lemma index_cache_configured_update:
  "index_cache_configured E s \<Longrightarrow> SERIES_CONFIG E S \<noteq> None \<Longrightarrow>
   map_of object_prototype S = None \<Longrightarrow>
   seriesIndexCache s' = (seriesIndexCache s)(S \<mapsto> m) \<Longrightarrow> index_cache_configured E s'"
  by (auto simp: index_cache_configured_def)

lemma miss_not_inherited:
  "index_cache_configured E s \<Longrightarrow> \<not> truthy (cached (seriesIndexCache s) S) \<Longrightarrow>
   map_of object_prototype S = None"
  by (cases "seriesIndexCache s S")
     (auto simp: index_cache_configured_def cached_def dest: not_inherited)

lemma index_cache_configured_same:
  "index_cache_configured E s \<Longrightarrow> seriesIndexCache s' = seriesIndexCache s \<Longrightarrow>
   index_cache_configured E s'"
  by (simp add: index_cache_configured_def)

lemma index_cache_configured_init: "index_cache_configured E init_state"
  by (simp add: index_cache_configured_def init_state_def)

lemma loadSeriesIndex_configured:
  assumes "index_cache_configured E s" and "loadSeriesIndex E S s = (r, s')"
  shows "index_cache_configured E s'"
proof (cases "truthy (cached (seriesIndexCache s) S)")
  case True
  with assms show ?thesis
    by (auto simp: loadSeriesIndex_def)
next
  case False
  show ?thesis
  proof (cases "SERIES_CONFIG E S")
    case None
    with False assms show ?thesis
      by (auto simp: loadSeriesIndex_def)
  next
    case (Some cfg)
    obtain r0 s0 where t: "loadSeriesIndex_try E cfg S s = (r0, s0)"
      by (cases "loadSeriesIndex_try E cfg S s")
    have s': "seriesIndexCache s' = seriesIndexCache s0"
      using False Some assms(2) t by (cases r0) (auto simp: loadSeriesIndex_def)
    show ?thesis
    proof (cases r0)
      case (Inl e)
      with loadSeriesIndex_try_index [OF t] s' have "seriesIndexCache s' = seriesIndexCache s"
        by simp
      with assms(1) show ?thesis
        by (rule index_cache_configured_same)
    next
      case (Inr m)
      with loadSeriesIndex_try_index [OF t] s' have "seriesIndexCache s' = (seriesIndexCache s)(S \<mapsto> m)"
        by simp
      with assms(1) Some miss_not_inherited [OF assms(1) False] show ?thesis
        by (auto intro: index_cache_configured_update)
    qed
  qed
qed

lemma run_loads_index: "run_loads E sid cats s = (rs, s') \<Longrightarrow> seriesIndexCache s' = seriesIndexCache s"
proof (induction cats arbitrary: s rs s')
  case Nil
  then show ?case by simp
next
  case (Cons cat cats)
  obtain r s1 where a: "loadCategory E sid (js_prop cat ''file'') s = (r, s1)"
    by (cases "loadCategory E sid (js_prop cat ''file'') s")
  obtain rs' s2 where b: "run_loads E sid cats s1 = (rs', s2)"
    by (cases "run_loads E sid cats s1")
  from Cons.prems a b have "s' = s2" by simp
  with loadCategory_frame [OF a] Cons.IH [OF b] show ?case
    by simp
qed

lemma load_all_index: "load_all E sid cats s = (r, s') \<Longrightarrow> seriesIndexCache s' = seriesIndexCache s"
  by (auto simp: load_all_def Let_def split: prod.splits if_splits dest!: run_loads_index)

lemma load_batch_index: "seriesIndexCache (load_batch E sid batch s) = seriesIndexCache s"
  by (auto simp: load_batch_def mark_loaded_def split: prod.splits sum.splits dest!: load_all_index)

lemma load_batches_index:
  "load_batches E sid batches s = (r, s') \<Longrightarrow> seriesIndexCache s' = seriesIndexCache s"
  by (induction batches arbitrary: s) (auto simp: load_batch_index split: sum.splits if_splits)

lemma loadRemainingCategories_index:
  "loadRemainingCategories E sid cats s = (r, s') \<Longrightarrow> seriesIndexCache s' = seriesIndexCache s"
  by (auto simp: loadRemainingCategories_def split: prod.splits sum.splits dest!: load_batches_index)

lemma initSeries_try_configured:
  assumes "index_cache_configured E s" and "initSeries_try E sid s = (r, s')"
  shows "index_cache_configured E s'"
proof -
  obtain r1 s1 where idx: "loadSeriesIndex E sid s = (r1, s1)"
    by (cases "loadSeriesIndex E sid s")
  from loadSeriesIndex_configured [OF assms(1) idx] have c1: "index_cache_configured E s1" .
  have "seriesIndexCache s' = seriesIndexCache s1"
    using assms(2) idx
    by (auto simp: initSeries_try_def Let_def mark_loaded_def
             split: sum.splits prod.splits if_splits dest!: load_all_index)
  with c1 show ?thesis
    by (rule index_cache_configured_same)
qed

lemma initSeries_configured:
  assumes "index_cache_configured E s"
  shows "index_cache_configured E (fst (snd (initSeries E sid force s)))"
proof -
  have c0: "index_cache_configured E (reset_for sid s)"
    using assms by (rule index_cache_configured_same) (simp add: reset_for_def)
  obtain r s1 where t: "initSeries_try E sid (reset_for sid s) = (r, s1)"
    by (cases "initSeries_try E sid (reset_for sid s)")
  from initSeries_try_configured [OF c0 t] have c1: "index_cache_configured E s1" .
  show ?thesis
    using assms c1 t
    by (cases r) (auto simp: initSeries_def index_cache_configured_def)
qed

lemma run_background_configured:
  "index_cache_configured E s \<Longrightarrow> index_cache_configured E (run_background E sid background s)"
proof (cases background)
  case None
  assume "index_cache_configured E s"
  with None show ?thesis by (simp add: run_background_def)
next
  case (Some cats)
  assume c: "index_cache_configured E s"
  obtain r s' where t: "loadRemainingCategories E sid cats s = (r, s')"
    by (cases "loadRemainingCategories E sid cats s")
  from c loadRemainingCategories_index [OF t] have "index_cache_configured E s'"
    by (rule index_cache_configured_same)
  with Some t show ?thesis by (simp add: run_background_def)
qed

lemma loadAllCategories_configured:
  assumes "index_cache_configured E s"
  shows "index_cache_configured E (snd (loadAllCategories E sid s))"
proof (cases "truthy (cached (seriesIndexCache s) sid)")
  case False
  obtain r s1 where idx: "loadSeriesIndex E sid s = (r, s1)"
    by (cases "loadSeriesIndex E sid s")
  from loadSeriesIndex_configured [OF assms idx] False idx show ?thesis
    by (cases r) (simp_all add: loadAllCategories_def)
next
  case True
  have "seriesIndexCache (snd (loadAllCategories E sid s)) = seriesIndexCache s"
    using True
    by (auto simp: loadAllCategories_def Let_def
             split: sum.splits prod.splits if_splits dest!: loadRemainingCategories_index)
  with assms show ?thesis
    by (rule index_cache_configured_same)
qed

lemma clearCache_configured:
  "index_cache_configured E s \<Longrightarrow> index_cache_configured E (clearCache seriesId s)"
  by (auto simp: index_cache_configured_def clearCache_def)

lemma unconfigured_no_entry:
  "index_cache_configured E s \<Longrightarrow>
   SERIES_CONFIG E sid = None \<or> map_of object_prototype sid \<noteq> None \<Longrightarrow>
   seriesIndexCache s sid = None"
  by (auto simp: index_cache_configured_def)

section \<open>Running the sample deployment\<close>

lemmas demo_defs = demo_env_def demo_config_def demo_fetch_def found_def not_found_def
  demo_manifest_def demo_category_def demo_item_def cdn_buildImageUrl_def

lemmas loader_defs = loadSeriesIndex_def loadSeriesIndex_try_def loadCategory_def
  loadCategory_try_def fetch_data_def wallpaperList_of_def transform_list_def
  transformWallpaperUrls_def resolve_field_def cached_def inherited_def object_prototype_def
  cacheKey_of_def js_or_def emit_def
  categories_of_def load_all_def filter_unloaded_def mark_loaded_def load_batch_def
  loadRemainingCategories_def initSeries_def initSeries_try_def reset_for_def
  run_background_def activate_and_wait_def init_state_def

section \<open>Properties of URL resolution\<close>

lemma resolve_eq:
  "\<not> nullish item \<Longrightarrow>
   resolve build item k =
     Inr (resolve_field build item (path_field k) (url_field k)
            (if k = Preview then JNull else JStr []))"
  by (cases k) (simp_all add: resolve_def transformWallpaperUrls_def update_conv')

text \<open>
  C2, as the claim states it, fails: an item that carries both \<^verbatim>\<open>path\<close> and \<^verbatim>\<open>url\<close> gets
  its \<^verbatim>\<open>url\<close> built from the path, and the pre-resolved value is dropped.
\<close>

theorem resolve_prefers_path_counterexample:
  "resolve cdn_buildImageUrl
     (JObj [(''path'', JStr ''a.jpg''), (''url'', JStr ''https://old.example/a.jpg'')]) Full
   = Inr (JStr ''https://cdn.example/a.jpg'')
   \<and> JStr ''https://cdn.example/a.jpg'' \<noteq> JStr ''https://old.example/a.jpg''"
  by (simp add: resolve_eq resolve_field_def cdn_buildImageUrl_def)

text \<open>
  C2, amended. In the store, for every item and every kind: when the relative path field of
  the kind (\<^verbatim>\<open>path\<close> for full and download, \<^verbatim>\<open>thumbnailPath\<close>, \<^verbatim>\<open>previewPath\<close>) is absent or
  empty and the item carries a non-empty absolute URL field, resolution returns that value
  verbatim; when the path field is present, the result is built from the path. In the older
  composable, an item that carries both \<^verbatim>\<open>url\<close> and \<^verbatim>\<open>thumbnailUrl\<close> is returned unchanged.
\<close>

theorem resolve_verbatim_without_path:
  assumes "truthy (js_prop item (url_field k))"
  shows "(\<not> truthy (js_prop item (path_field k)) \<longrightarrow>
            resolve build item k = Inr (js_prop item (url_field k)))
       \<and> (truthy (js_prop item (path_field k)) \<longrightarrow>
            resolve build item k = Inr (JStr (build (js_prop item (path_field k)))))
       \<and> (truthy (js_prop item ''url'') \<and> truthy (js_prop item ''thumbnailUrl'') \<longrightarrow>
            fetchWallpapers_item build item = Inr item)"
proof -
  have nn: "\<not> nullish item"
    using assms by (cases item) simp_all
  show ?thesis
    using assms by (simp add: resolve_eq [OF nn] resolve_field_def js_or_def fetchWallpapers_item_def nn)
qed

theorem resolve_verbatim_without_path_witness:
  "resolve cdn_buildImageUrl (JObj [(''previewUrl'', JStr ''https://old.example/p.jpg'')]) Preview
     = Inr (JStr ''https://old.example/p.jpg'')
   \<and> resolve cdn_buildImageUrl
       (JObj [(''thumbnailPath'', JStr ''t.webp''), (''thumbnailUrl'', JStr ''https://old.example/t'')])
       Thumbnail
     = Inr (JStr ''https://cdn.example/t.webp'')
   \<and> fetchWallpapers_item cdn_buildImageUrl
       (JObj [(''path'', JStr ''a.jpg''), (''url'', JStr ''u''), (''thumbnailUrl'', JStr ''t'')])
     = Inr (JObj [(''path'', JStr ''a.jpg''), (''url'', JStr ''u''), (''thumbnailUrl'', JStr ''t'')])"
  using resolve_verbatim_without_path
          [of "JObj [(''previewUrl'', JStr ''https://old.example/p.jpg'')]" Preview cdn_buildImageUrl]
        resolve_verbatim_without_path
          [of "JObj [(''thumbnailPath'', JStr ''t.webp''), (''thumbnailUrl'', JStr ''https://old.example/t'')]"
              Thumbnail cdn_buildImageUrl]
        resolve_verbatim_without_path
          [of "JObj [(''path'', JStr ''a.jpg''), (''url'', JStr ''u''), (''thumbnailUrl'', JStr ''t'')]"
              Full cdn_buildImageUrl]
  by (simp add: cdn_buildImageUrl_def)

section \<open>Properties of the series index cache\<close>

lemma fetch_count_emit [simp]:
  "fetch_count (emit ev s) = fetch_count s + (if is_fetch ev then 1 else 0)"
  by (simp add: fetch_count_def emit_def)

lemma fetch_count_cache_update [simp]:
  "fetch_count (s\<lparr>seriesIndexCache := c\<rparr>) = fetch_count s"
  "fetch_count (s\<lparr>categoryCache := c'\<rparr>) = fetch_count s"
  by (simp_all add: fetch_count_def)

lemma decodeMainThread_fetch_count:
  "decodeMainThread E x s = (r, s') \<Longrightarrow> fetch_count s' = fetch_count s"
  by (auto simp: decodeMainThread_def Let_def split: sum.splits)

lemma decodeDataWithWorker_fetch_count:
  "decodeDataWithWorker E x s = (r, s') \<Longrightarrow> fetch_count s' = fetch_count s"
  by (auto simp: decodeDataWithWorker_def split: if_splits sum.splits
           dest!: decodeMainThread_fetch_count)

lemma fetch_data_fetch_count:
  "fetch_data E url s = (r, s') \<Longrightarrow> fetch_count s' = fetch_count s + 1"
  by (auto simp: fetch_data_def Let_def split: sum.splits if_splits)

lemma loadSeriesIndex_try_result:
  assumes "loadSeriesIndex_try E cfg S s = (Inr m, s')"
  shows "seriesIndexCache s' S = Some m \<and> fetch_count s' = fetch_count s + 1"
  using assms
  by (auto simp: loadSeriesIndex_try_def Let_def
           split: prod.splits sum.splits if_splits
           dest!: fetch_data_fetch_count decodeDataWithWorker_fetch_count)

lemma loadSeriesIndex_result:
  assumes "loadSeriesIndex E S s = (Inr m, s')"
  shows "(s' = s \<and> cached (seriesIndexCache s) S = m)
       \<or> (seriesIndexCache s' S = Some m \<and> fetch_count s' = fetch_count s + 1)"
  using assms
  by (auto simp: loadSeriesIndex_def split: if_splits option.splits prod.splits sum.splits
           dest!: loadSeriesIndex_try_result)

text \<open>
  C7. When a call of \<^verbatim>\<open>loadSeriesIndex(S)\<close> returns a manifest (a JSON object, hence
  truthy), a second call made after it returns the same value and leaves the whole state as
  it was, trace included: no fetch, no decode, no message. Both calls together issue at
  most one network fetch.
\<close>

theorem loadSeriesIndex_cache_idempotent:
  assumes "fst (loadSeriesIndex E S s) = Inr m" and "truthy m"
  shows "loadSeriesIndex E S (snd (loadSeriesIndex E S s)) = (Inr m, snd (loadSeriesIndex E S s))
       \<and> fetch_count (snd (loadSeriesIndex E S (snd (loadSeriesIndex E S s)))) \<le> fetch_count s + 1"
proof -
  obtain s1 where first: "loadSeriesIndex E S s = (Inr m, s1)"
    using assms(1) by (cases "loadSeriesIndex E S s") simp
  from loadSeriesIndex_result [OF first]
  have c: "cached (seriesIndexCache s1) S = m" and n: "fetch_count s1 \<le> fetch_count s + 1"
    by (auto simp: cached_def)
  from c assms(2) have "loadSeriesIndex E S s1 = (Inr m, s1)"
    by (simp add: loadSeriesIndex_def)
  with n first show ?thesis by simp
qed

lemma demo_loadSeriesIndex:
  "loadSeriesIndex (demo_env files missing) ''desktop'' init_state =
     (Inr (demo_manifest files),
      init_state\<lparr>seriesIndexCache := [''desktop'' \<mapsto> demo_manifest files],
                 trace := [NetFetch ''/data/desktop/index.json'']\<rparr>)"
  by (simp add: loadSeriesIndex_def loadSeriesIndex_try_def fetch_data_def cached_def
        inherited_def object_prototype_def init_state_def demo_env_def demo_config_def demo_fetch_def found_def emit_def js_or_def
        demo_manifest_def)

theorem loadSeriesIndex_cache_idempotent_witness:
  "fst (loadSeriesIndex (demo_env [''a.json''] []) ''desktop''
          (snd (loadSeriesIndex (demo_env [''a.json''] []) ''desktop'' init_state)))
     = Inr (demo_manifest [''a.json''])
   \<and> fetch_count (snd (loadSeriesIndex (demo_env [''a.json''] []) ''desktop''
          (snd (loadSeriesIndex (demo_env [''a.json''] []) ''desktop'' init_state)))) = 1"
proof -
  have h1: "fst (loadSeriesIndex (demo_env [''a.json''] []) ''desktop'' init_state)
              = Inr (demo_manifest [''a.json''])"
    by (simp add: demo_loadSeriesIndex)
  have h2: "truthy (demo_manifest [''a.json''])"
    by (simp add: demo_manifest_def)
  note idem = loadSeriesIndex_cache_idempotent [OF h1 h2]
  show ?thesis
    unfolding idem [THEN conjunct1]
    by (simp add: demo_loadSeriesIndex fetch_count_def)
qed

section \<open>Properties of cache clearing\<close>

lemma takeWhile_upto_sep:
  "c \<notin> set S \<Longrightarrow> takeWhile (\<lambda>x. x \<noteq> c) (S @ c # rest) = S"
  by (induction S) auto

lemma prefix_colon_iff:
  assumes "CHR '':'' \<notin> set S"
  shows "prefix (S @ '':'') key \<longleftrightarrow> key_series key = Some S"
proof
  assume "prefix (S @ '':'') key"
  then obtain rest where key: "key = S @ CHR '':'' # rest"
    by (auto simp: prefix_def)
  have "takeWhile (\<lambda>c. c \<noteq> CHR '':'') (S @ CHR '':'' # rest) = S"
    using assms by (rule takeWhile_upto_sep)
  then show "key_series key = Some S"
    by (simp add: key_series_def key)
next
  assume ks: "key_series key = Some S"
  then have mem: "CHR '':'' \<in> set key" and tw: "takeWhile (\<lambda>c. c \<noteq> CHR '':'') key = S"
    by (auto simp: key_series_def split: if_splits)
  have ne: "dropWhile (\<lambda>c. c \<noteq> CHR '':'') key \<noteq> []"
    using mem by (simp add: dropWhile_eq_Nil_conv)
  then have "hd (dropWhile (\<lambda>c. c \<noteq> CHR '':'') key) = CHR '':''"
    using hd_dropWhile [OF ne] by simp
  with ne obtain rest where dw: "dropWhile (\<lambda>c. c \<noteq> CHR '':'') key = CHR '':'' # rest"
    by (cases "dropWhile (\<lambda>c. c \<noteq> CHR '':'') key") auto
  have "key = takeWhile (\<lambda>c. c \<noteq> CHR '':'') key @ dropWhile (\<lambda>c. c \<noteq> CHR '':'') key"
    by simp
  then have "key = S @ CHR '':'' # rest"
    using tw dw by simp
  then show "prefix (S @ '':'') key"
    by (simp add: prefix_def)
qed

lemma key_series_cacheKey_of:
  "CHR '':'' \<notin> set S \<Longrightarrow> key_series (cacheKey_of S file) = Some S"
  by (simp add: key_series_def cacheKey_of_def takeWhile_upto_sep)

text \<open>
  C8. For a series id \<open>S\<close> (a non-empty string without a colon, as the ids of the series
  table are), \<^verbatim>\<open>clearCache(S)\<close> removes the index entry of \<open>S\<close> and no other index entry,
  and removes exactly the category entries whose key has the series component \<open>S\<close>: every
  entry of \<open>S\<close> is gone, every entry of another series is unchanged.
\<close>

theorem clearCache_series_isolation:
  assumes "S \<noteq> []" and "CHR '':'' \<notin> set S"
  shows "seriesIndexCache (clearCache (JStr S) s) = (seriesIndexCache s)(S := None)
       \<and> (\<forall>key. categoryCache (clearCache (JStr S) s) key
                  = (if key_series key = Some S then None else categoryCache s key))
       \<and> (\<forall>file. categoryCache (clearCache (JStr S) s) (cacheKey_of S file) = None)
       \<and> (\<forall>S' file. S' \<noteq> S \<and> CHR '':'' \<notin> set S' \<longrightarrow>
             seriesIndexCache (clearCache (JStr S) s) S' = seriesIndexCache s S'
           \<and> categoryCache (clearCache (JStr S) s) (cacheKey_of S' file)
               = categoryCache s (cacheKey_of S' file))"
  using assms
  apply (simp add: clearCache_def)
  apply (intro conjI allI impI)
  apply (simp_all add: prefix_colon_iff key_series_cacheKey_of)
  done

theorem clearCache_series_isolation_witness:
  "categoryCache
     (clearCache (JStr ''desktop'')
        (init_state\<lparr>categoryCache :=
           [''desktop:a.json'' \<mapsto> JArr [], ''mobile:a.json'' \<mapsto> JArr [JNull]]\<rparr>))
     (cacheKey_of ''mobile'' (JStr ''a.json'')) = Some (JArr [JNull])
   \<and> categoryCache
     (clearCache (JStr ''desktop'')
        (init_state\<lparr>categoryCache :=
           [''desktop:a.json'' \<mapsto> JArr [], ''mobile:a.json'' \<mapsto> JArr [JNull]]\<rparr>))
     (cacheKey_of ''desktop'' (JStr ''a.json'')) = None"
proof -
  let ?s = "init_state\<lparr>categoryCache :=
              [''desktop:a.json'' \<mapsto> JArr [], ''mobile:a.json'' \<mapsto> JArr [JNull]]\<rparr>"
  have h1: "''desktop'' \<noteq> []" by simp
  have h2: "CHR '':'' \<notin> set ''desktop''" by simp
  note iso = clearCache_series_isolation [OF h1 h2, of ?s]
  note gone = iso [THEN conjunct2, THEN conjunct2, THEN conjunct1, THEN spec, of "JStr ''a.json''"]
  have h3: "''mobile'' \<noteq> ''desktop'' \<and> CHR '':'' \<notin> set ''mobile''" by simp
  note same = iso [THEN conjunct2, THEN conjunct2, THEN conjunct2, THEN spec, THEN spec, THEN mp,
                   OF h3, THEN conjunct2, of "JStr ''a.json''"]
  have kept: "categoryCache (clearCache (JStr ''desktop'') ?s)
                (cacheKey_of ''mobile'' (JStr ''a.json'')) = Some (JArr [JNull])"
    unfolding same by (simp add: cacheKey_of_def init_state_def)
  from kept gone show ?thesis by (rule conjI)
qed

section \<open>Properties of the lookups\<close>

lemma findIndex_from_absent:
  "\<forall>w\<in>set ws. \<not> nullish w \<and> \<not> js_strict_equals (js_prop w ''id'') ident \<Longrightarrow>
   findIndex_from i ident ws = Inr (- 1)"
  by (induction ws arbitrary: i) simp_all

text \<open>
  C10. On a non-empty merged list, \<^verbatim>\<open>getNextWallpaper\<close> called with an id that no element
  carries returns the first wallpaper of the list, not \<^verbatim>\<open>null\<close>: \<^verbatim>\<open>findIndex\<close> gives -1,
  which is below \<^verbatim>\<open>length - 1\<close>, and the element at index 0 is returned.
\<close>

theorem getNextWallpaper_unknown_id_returns_first:
  assumes "wallpapers s \<noteq> []"
    and "\<forall>w\<in>set (wallpapers s). \<not> nullish w \<and> \<not> js_strict_equals (js_prop w ''id'') ident"
  shows "getWallpaperIndex ident s = Inr (- 1)
       \<and> getNextWallpaper ident s = Inr (wallpapers s ! 0)
       \<and> getNextWallpaper ident s \<noteq> Inr JNull"
proof -
  have idx: "getWallpaperIndex ident s = Inr (- 1)"
    using assms(2) by (simp add: getWallpaperIndex_def findIndex_from_absent)
  have len: "0 < length (wallpapers s)"
    using assms(1) by simp
  have nxt: "getNextWallpaper ident s = Inr (wallpapers s ! 0)"
    using len by (simp add: getNextWallpaper_def idx js_index_def)
  have "wallpapers s ! 0 \<in> set (wallpapers s)"
    using len by (rule nth_mem)
  then have "\<not> nullish (wallpapers s ! 0)"
    using assms(2) by blast
  then have "wallpapers s ! 0 \<noteq> JNull"
    by auto
  with idx nxt show ?thesis by simp
qed

theorem getNextWallpaper_unknown_id_witness:
  "getNextWallpaper (JStr ''zz'')
     (init_state\<lparr>wallpapers := [JObj [(''id'', JStr ''a'')], JObj [(''id'', JStr ''b'')]]\<rparr>)
   = Inr (JObj [(''id'', JStr ''a'')])"
  using getNextWallpaper_unknown_id_returns_first
    [of "init_state\<lparr>wallpapers := [JObj [(''id'', JStr ''a'')], JObj [(''id'', JStr ''b'')]]\<rparr>"
        "JStr ''zz''"]
  by (simp add: js_strict_equals_def)

section \<open>Properties of the progressive loader\<close>

lemma loadSeriesIndex_invalid:
  "SERIES_CONFIG E seriesId = None \<Longrightarrow> \<not> truthy (cached (seriesIndexCache s) seriesId) \<Longrightarrow>
   loadSeriesIndex E seriesId s = (Inl (Error (''Invalid series: '' @ seriesId)), s)"
  by (simp add: loadSeriesIndex_def)

lemma loadSeriesIndex_inherited:
  "seriesIndexCache s seriesId = None \<Longrightarrow> map_of object_prototype seriesId = Some v \<Longrightarrow>
   loadSeriesIndex E seriesId s = (Inr v, s)"
  by (simp add: loadSeriesIndex_def cached_def inherited_def inherited_truthy)

lemma categories_of_inherited:
  "map_of object_prototype k = Some v \<Longrightarrow> categories_of v = Inl (cannot_read ''slice'')"
proof -
  assume "map_of object_prototype k = Some v"
  then have "(k, v) \<in> set object_prototype" by (rule map_of_SomeD)
  then show ?thesis unfolding object_prototype_def by (auto simp: categories_of_def)
qed

lemma error_message_nonempty:
  "(if message e \<noteq> [] then message e else default_error_message) \<noteq> []"
  by (simp add: default_error_message_def)

text \<open>
  C3, as the claim states it, fails: \<^verbatim>\<open>initSeries('tablet')\<close> does not reject. Its
  \<^verbatim>\<open>catch\<close> takes the error of \<^verbatim>\<open>loadSeriesIndex\<close> and the promise resolves.
\<close>

theorem initSeries_unknown_series_resolves_counterexample:
  "SERIES_CONFIG (demo_env [] []) ''tablet'' = None
   \<and> fst (initSeries (demo_env [] []) ''tablet'' False init_state) = Inr ()
   \<and> \<not> isl (fst (initSeries (demo_env [] []) ''tablet'' False init_state))"
  by (simp add: loader_defs demo_defs)

text \<open>
  C3, amended. Take a series id for which the series table has no entry, or which names a
  property that every plain object inherits (such as \<^verbatim>\<open>constructor\<close>), and which does not
  begin with \<^verbatim>\<open>__v_\<close>; take a state whose index cache has own entries for configured
  series only (as every state the store reaches has). An activation that is not skipped
  (forced, or another series is current, or the merged list is empty) resolves without
  rejecting; it leaves \<^verbatim>\<open>error\<close> set to a non-empty message, the merged list empty,
  \<^verbatim>\<open>loading\<close> false and no background call running. The message is
  \<^verbatim>\<open>Invalid series: <id>\<close> unless the id names an inherited property: then the cache read
  of \<^verbatim>\<open>loadSeriesIndex\<close> returns the inherited value and the message is that of the
  TypeError thrown on \<^verbatim>\<open>indexData.categories.slice\<close>.
\<close>

theorem initSeries_unknown_series_sets_error:
  assumes "SERIES_CONFIG E seriesId = None \<or> map_of object_prototype seriesId \<noteq> None"
    and "\<not> prefix ''__v_'' seriesId"
    and "index_cache_configured E s"
    and "forceRefresh \<or> currentLoadedSeries s \<noteq> seriesId \<or> wallpapers s = []"
  shows "fst (initSeries E seriesId forceRefresh s) = Inr ()
       \<and> (\<exists>msg. error (fst (snd (initSeries E seriesId forceRefresh s))) = Some msg \<and> msg \<noteq> [])
       \<and> (map_of object_prototype seriesId = None \<longrightarrow>
            error (fst (snd (initSeries E seriesId forceRefresh s)))
              = Some (''Invalid series: '' @ seriesId))
       \<and> wallpapers (fst (snd (initSeries E seriesId forceRefresh s))) = []
       \<and> \<not> loading (fst (snd (initSeries E seriesId forceRefresh s)))
       \<and> snd (snd (initSeries E seriesId forceRefresh s)) = None"
proof -
  let ?s0 = "reset_for seriesId s"
  have own: "seriesIndexCache ?s0 seriesId = None"
    using unconfigured_no_entry [OF assms(3,1)] by (simp add: reset_for_def)
  have run: "\<not> (\<not> forceRefresh \<and> currentLoadedSeries s = seriesId \<and> length (wallpapers s) > 0)"
    using assms(4) by auto
  have "\<exists>e. initSeries_try E seriesId ?s0 = (Inl e, ?s0)
           \<and> (map_of object_prototype seriesId = None \<longrightarrow> e = Error (''Invalid series: '' @ seriesId))"
  proof (cases "map_of object_prototype seriesId")
    case None
    with assms(1) have cfg: "SERIES_CONFIG E seriesId = None"
      by simp
    have "\<not> truthy (cached (seriesIndexCache ?s0) seriesId)"
      using own None by (simp add: cached_def inherited_def)
    with cfg have "loadSeriesIndex E seriesId ?s0 = (Inl (Error (''Invalid series: '' @ seriesId)), ?s0)"
      by (rule loadSeriesIndex_invalid)
    then show ?thesis
      by (simp add: initSeries_try_def)
  next
    case (Some v)
    with own have "loadSeriesIndex E seriesId ?s0 = (Inr v, ?s0)"
      by (rule loadSeriesIndex_inherited)
    with categories_of_inherited [OF Some] Some show ?thesis
      by (simp add: initSeries_try_def)
  qed
  then obtain e where body: "initSeries_try E seriesId ?s0 = (Inl e, ?s0)"
    and inv: "map_of object_prototype seriesId = None \<longrightarrow> e = Error (''Invalid series: '' @ seriesId)"
    by (elim exE conjE)
  have init: "initSeries E seriesId forceRefresh s
      = (Inr (),
         (emit (ConsoleError (''Failed to init series '' @ seriesId @ '':'') e) ?s0)
           \<lparr>error := Some (if message e \<noteq> [] then message e else default_error_message),
            wallpapers := [], loading := False\<rparr>,
         None)"
    unfolding initSeries_def body using run by auto
  show ?thesis
    unfolding init using inv error_message_nonempty [of e] by auto
qed

theorem initSeries_unknown_series_witness:
  "error (fst (snd (initSeries (demo_env [] []) ''tablet'' False init_state)))
     = Some ''Invalid series: tablet''
   \<and> wallpapers (fst (snd (initSeries (demo_env [] []) ''tablet'' False init_state))) = []
   \<and> fst (initSeries (demo_env [] []) ''constructor'' False init_state) = Inr ()
   \<and> wallpapers (fst (snd (initSeries (demo_env [] []) ''constructor'' False init_state))) = []"
proof -
  have a1: "SERIES_CONFIG (demo_env [] []) ''tablet'' = None \<or> map_of object_prototype ''tablet'' \<noteq> None"
    by (simp add: demo_env_def)
  have a2: "\<not> prefix ''__v_'' ''tablet''"
    by simp
  have b1: "SERIES_CONFIG (demo_env [] []) ''constructor'' = None
            \<or> map_of object_prototype ''constructor'' \<noteq> None"
    by (simp add: demo_env_def)
  have b2: "\<not> prefix ''__v_'' ''constructor''"
    by simp
  have h3: "index_cache_configured (demo_env [] []) init_state"
    by (rule index_cache_configured_init)
  have h4: "False \<or> currentLoadedSeries init_state \<noteq> ''tablet'' \<or> wallpapers init_state = []"
    "False \<or> currentLoadedSeries init_state \<noteq> ''constructor'' \<or> wallpapers init_state = []"
    by (simp_all add: init_state_def)
  have np: "map_of object_prototype ''tablet'' = None"
    by (simp add: object_prototype_def)
  from initSeries_unknown_series_sets_error [OF a1 a2 h3 h4(1)] np
       initSeries_unknown_series_sets_error [OF b1 b2 h3 h4(2)]
  show ?thesis by simp
qed

text \<open>
  C4 fails on the code. With the index of the series not yet cached, \<^verbatim>\<open>loadAllCategories\<close>
  fetches the index and returns: the manifest lists \<^verbatim>\<open>a.json\<close>, nothing marks it loaded,
  and yet the merged list and the loaded set are still empty when the promise resolves.
\<close>

theorem loadAllCategories_uncached_index_loads_nothing:
  "fst (loadAllCategories (demo_env [''a.json''] []) ''desktop'' init_state) = Inr ()
   \<and> wallpapers (snd (loadAllCategories (demo_env [''a.json''] []) ''desktop'' init_state)) = []
   \<and> loadedCategories (snd (loadAllCategories (demo_env [''a.json''] []) ''desktop'' init_state)) = {}
   \<and> categories_of (cached (seriesIndexCache
         (snd (loadAllCategories (demo_env [''a.json''] []) ''desktop'' init_state))) ''desktop'')
       = Inr [JObj [(''file'', JStr ''a.json'')]]"
  by (simp add: loadAllCategories_def loader_defs demo_defs)

text \<open>The same call made again, now with the index cached, does load the category.\<close>

lemma loadAllCategories_cached_index_loads:
  "wallpapers (snd (loadAllCategories (demo_env [''a.json''] []) ''desktop''
      (snd (loadAllCategories (demo_env [''a.json''] []) ''desktop'' init_state))))
   = [demo_item ''a.json'']"
  by (simp add: loadAllCategories_def loader_defs demo_defs mk_batches.simps BATCH_SIZE_def)

text \<open>
  C1, as the claim states it, fails. The manifest lists five categories and \<^verbatim>\<open>e.json\<close>
  answers 404. The background batch is \<^verbatim>\<open>d.json\<close>, \<^verbatim>\<open>e.json\<close>: the load of \<^verbatim>\<open>d.json\<close>
  succeeds and is cached, but \<^verbatim>\<open>Promise.all\<close> rejects, so the items of \<^verbatim>\<open>d.json\<close> are not
  appended to the merged list.
\<close>

theorem failed_batch_drops_succeeded_counterexample:
  "wallpapers (activate_and_wait
      (demo_env [''a.json'', ''b.json'', ''c.json'', ''d.json'', ''e.json''] [''e.json''])
      ''desktop'' False init_state)
     = [demo_item ''a.json'', demo_item ''b.json'', demo_item ''c.json'']
   \<and> cached (categoryCache (activate_and_wait
      (demo_env [''a.json'', ''b.json'', ''c.json'', ''d.json'', ''e.json''] [''e.json''])
      ''desktop'' False init_state)) ''desktop:d.json''
     = JArr [demo_item ''d.json'']
   \<and> demo_item ''d.json'' \<notin> set (wallpapers (activate_and_wait
      (demo_env [''a.json'', ''b.json'', ''c.json'', ''d.json'', ''e.json''] [''e.json''])
      ''desktop'' False init_state))"
  by (simp add: loader_defs demo_defs mk_batches.simps BATCH_SIZE_def)

lemma promise_all_Inl_mem: "promise_all rs = Inl e \<Longrightarrow> Inl e \<in> set rs"
  by (induction rs rule: promise_all.induct) (auto split: sum.splits)

lemma promise_all_rejects: "Inl e \<in> set rs \<Longrightarrow> \<exists>e'. promise_all rs = Inl e'"
  by (induction rs rule: promise_all.induct) (auto split: sum.splits)

text \<open>
  C1, amended. In the loop of \<^verbatim>\<open>loadRemainingCategories\<close>, a batch in which some category's
  load fails is given up as a whole: one \<^verbatim>\<open>Failed to load batch:\<close> warning is logged with
  a failure of the batch, nothing is appended to the merged list and no category of the
  batch is marked loaded, whatever loads of the batch succeeded. The loop then goes on with
  the batches that follow.
\<close>

theorem failed_batch_is_skipped:
  assumes "filter_unloaded batch s = Inr unloadedBatch"
    and "unloadedBatch \<noteq> []"
    and "\<exists>e. Inl e \<in> set (fst (run_loads E seriesId unloadedBatch s))"
  shows "(\<exists>e. Inl e \<in> set (fst (run_loads E seriesId unloadedBatch s))
            \<and> trace (load_batch E seriesId unloadedBatch s)
                = trace (snd (run_loads E seriesId unloadedBatch s)) @ [ConsoleWarn ''Failed to load batch:'' e])
       \<and> wallpapers (load_batch E seriesId unloadedBatch s) = wallpapers s
       \<and> loadedCategories (load_batch E seriesId unloadedBatch s) = loadedCategories s
       \<and> load_batches E seriesId (batch # batches) s
           = load_batches E seriesId batches (load_batch E seriesId unloadedBatch s)"
proof -
  obtain rs s1 where run: "run_loads E seriesId unloadedBatch s = (rs, s1)"
    by (cases "run_loads E seriesId unloadedBatch s")
  from assms(3) run obtain e where e: "promise_all rs = Inl e"
    using promise_all_rejects by fastforce
  have nn: "\<forall>cat\<in>set unloadedBatch. \<not> nullish cat"
    using filter_unloaded_Inr [OF assms(1)] by auto
  have all: "load_all E seriesId unloadedBatch s = (Inl e, s1)"
    using load_all_no_null [OF nn, of E seriesId s] run e by simp
  have lb: "load_batch E seriesId unloadedBatch s = emit (ConsoleWarn ''Failed to load batch:'' e) s1"
    by (simp add: load_batch_def all)
  have refs: "refs_unchanged s s1"
    using run by (rule run_loads_refs)
  have "Inl e \<in> set (fst (run_loads E seriesId unloadedBatch s))"
    using promise_all_Inl_mem [OF e] run by simp
  moreover have "trace (load_batch E seriesId unloadedBatch s)
        = trace (snd (run_loads E seriesId unloadedBatch s)) @ [ConsoleWarn ''Failed to load batch:'' e]"
    by (simp add: lb run)
  moreover have "wallpapers (load_batch E seriesId unloadedBatch s) = wallpapers s"
    and "loadedCategories (load_batch E seriesId unloadedBatch s) = loadedCategories s"
    using refs by (simp_all add: lb refs_unchanged_def)
  moreover have "load_batches E seriesId (batch # batches) s
           = load_batches E seriesId batches (load_batch E seriesId unloadedBatch s)"
    using assms(1,2) by simp
  ultimately show ?thesis by blast
qed

theorem failed_batch_is_skipped_witness:
  "wallpapers (snd (load_batches (demo_env [''d.json'', ''e.json'', ''f.json''] [''e.json'']) ''desktop''
      [ [JObj [(''file'', JStr ''d.json'')], JObj [(''file'', JStr ''e.json'')]],
       [JObj [(''file'', JStr ''f.json'')]]] init_state))
   = [demo_item ''f.json'']"
proof -
  let ?E = "demo_env [''d.json'', ''e.json'', ''f.json''] [''e.json'']"
  let ?batch = "[JObj [(''file'', JStr ''d.json'')], JObj [(''file'', JStr ''e.json'')]]"
  have h1: "filter_unloaded ?batch init_state = Inr ?batch"
    by (simp add: filter_unloaded_def init_state_def)
  have h2: "?batch \<noteq> []"
    by simp
  have h3: "\<exists>e. Inl e \<in> set (fst (run_loads ?E ''desktop'' ?batch init_state))"
    by (simp add: loader_defs demo_defs)
  note skip = failed_batch_is_skipped [OF h1 h2 h3, of "[ [JObj [(''file'', JStr ''f.json'')]]]"]
  have lb: "load_batch ?E ''desktop'' ?batch init_state =
      init_state\<lparr>categoryCache := [''desktop:d.json'' \<mapsto> JArr [demo_item ''d.json'']],
                 trace := [NetFetch ''/data/desktop/d.json'', NetFetch ''/data/desktop/e.json'',
                   ConsoleError ''Failed to load category e.json:'' (Error ''HTTP error! status: 404''),
                   ConsoleWarn ''Failed to load batch:'' (Error ''HTTP error! status: 404'')]\<rparr>"
    by (simp add: loader_defs demo_defs show_nat.simps)
  show ?thesis
    unfolding skip [THEN conjunct2, THEN conjunct2, THEN conjunct2] lb
    by (simp add: loader_defs demo_defs)
qed

section \<open>Properties of the category payload cache\<close>

lemma decode_fails_decodeDataWithWorker:
  assumes "decode_fails E encoded"
  shows "isl (fst (decodeDataWithWorker E encoded s))"
proof -
  have main: "isl (fst (decodeMainThread E encoded s'))" for s'
    using assms by (auto simp: decode_fails_def decodeMainThread_def Let_def split: sum.splits)
  have "isl (workerDecodeAndParse E (length (trace s)) encoded)"
    using assms by (simp add: decode_fails_def)
  then obtain e where "workerDecodeAndParse E (length (trace s)) encoded = Inl e"
    by (cases "workerDecodeAndParse E (length (trace s)) encoded") auto
  then show ?thesis
    using main by (simp add: decodeDataWithWorker_def)
qed

lemma wallpaperList_of_degrades:
  assumes "truthy (js_or (js_prop data ''blob'') (js_prop data ''payload''))"
    and "decode_fails E (js_or (js_prop data ''blob'') (js_prop data ''payload''))"
  shows "fst (wallpaperList_of E categoryFile data s) = js_or (js_prop data ''wallpapers'') (JArr [])"
proof -
  let ?enc = "js_or (js_prop data ''blob'') (js_prop data ''payload'')"
  obtain r s' where d: "decodeDataWithWorker E ?enc s = (r, s')"
    by (cases "decodeDataWithWorker E ?enc s")
  with decode_fails_decodeDataWithWorker [OF assms(2), of s] obtain e where "r = Inl e"
    by (cases r) auto
  with d assms(1) show ?thesis
    by (simp add: wallpaperList_of_def decode_failed_def)
qed

lemma map_all_transform:
  "\<forall>w\<in>set ws. \<not> nullish w \<Longrightarrow>
   \<exists>ts. map_all (transformWallpaperUrls build) ws = Inr ts
      \<and> list_all2 (\<lambda>w t. transformWallpaperUrls build w = Inr t) ws ts"
proof (induction ws)
  case Nil
  then show ?case by simp
next
  case (Cons w ws)
  then obtain ts where ts: "map_all (transformWallpaperUrls build) ws = Inr ts"
    and rel: "list_all2 (\<lambda>w t. transformWallpaperUrls build w = Inr t) ws ts"
    by auto
  from Cons.prems obtain t where t: "transformWallpaperUrls build w = Inr t"
    by (auto simp: transformWallpaperUrls_def)
  from ts rel t show ?case by simp
qed

lemma map_all_null:
  "\<exists>w\<in>set ws. nullish w \<Longrightarrow> map_all (transformWallpaperUrls build) ws = Inl (cannot_read ''path'')"
proof (induction ws)
  case Nil
  then show ?case by simp
next
  case (Cons w ws)
  show ?case
  proof (cases "nullish w")
    case True
    then show ?thesis by (simp add: transformWallpaperUrls_def)
  next
    case False
    with Cons.prems have "\<exists>w\<in>set ws. nullish w" by simp
    with Cons.IH False show ?thesis by (simp add: transformWallpaperUrls_def)
  qed
qed

lemma loadCategory_after_bad_blob:
  assumes "\<not> truthy (cached (categoryCache s) (cacheKey_of seriesId categoryFile))"
    and "SERIES_CONFIG E seriesId = Some seriesConfig"
    and "fetch E (length (trace s)) (categoryBaseUrl seriesConfig @ ''/'' @ js_toString categoryFile)
           = Inr response"
    and "resp_ok response"
    and "resp_json response = Inr (JObj doc)"
    and "truthy (js_or (js_prop (JObj doc) ''blob'') (js_prop (JObj doc) ''payload''))"
    and "decode_fails E (js_or (js_prop (JObj doc) ''blob'') (js_prop (JObj doc) ''payload''))"
  shows "fst (loadCategory E seriesId categoryFile s)
           = transform_list E (js_or (js_prop (JObj doc) ''wallpapers'') (JArr []))"
proof -
  define url where "url = categoryBaseUrl seriesConfig @ ''/'' @ js_toString categoryFile"
  define s1 where "s1 = emit (NetFetch url) s"
  have fd: "fetch_data E url s = (Inr (JObj doc), s1)"
    using assms(3,4,5) unfolding url_def s1_def by (simp add: fetch_data_def)
  obtain wl s2 where wl: "wallpaperList_of E categoryFile (JObj doc) s1 = (wl, s2)"
    by (cases "wallpaperList_of E categoryFile (JObj doc) s1")
  have wl_eq: "wl = js_or (js_prop (JObj doc) ''wallpapers'') (JArr [])"
    using wallpaperList_of_degrades [OF assms(6,7), of categoryFile s1] wl by simp
  have "fst (loadCategory_try E seriesConfig categoryFile (cacheKey_of seriesId categoryFile) s)
          = transform_list E wl"
    unfolding loadCategory_try_def url_def [symmetric]
    by (simp add: fd wl split: sum.splits)
  then show ?thesis
    using assms(1,2) unfolding wl_eq
    by (auto simp: loadCategory_def split: prod.splits sum.splits)
qed

text \<open>
  C9, as the claim states it, fails: the document is a JSON object, its blob does not
  decode, and its plain \<^verbatim>\<open>wallpapers\<close> list holds \<^verbatim>\<open>null\<close>. The fallback list is mapped
  outside the inner \<^verbatim>\<open>try\<close>, so the TypeError of \<^verbatim>\<open>wallpaper.path\<close> reaches the outer
  \<^verbatim>\<open>catch\<close>, which throws it again: \<^verbatim>\<open>loadCategory\<close> rejects.
\<close>

theorem loadCategory_bad_blob_null_item_counterexample:
  "fst (loadCategory (serving (JObj [(''blob'', JStr ''%%%''), (''wallpapers'', JArr [JNull])]))
          ''desktop'' (JStr ''g.json'') init_state)
   = Inl (cannot_read ''path'')"
  by (simp add: loader_defs demo_defs serving_def decodeDataWithWorker_def decodeMainThread_def
        decode_failed_def)

text \<open>
  C9, amended. Let a category document be a JSON object whose blob or payload fails to
  decode (the decoder or \<^verbatim>\<open>JSON.parse\<close> throws). \<^verbatim>\<open>loadCategory\<close> then resolves to the
  empty list when the document has no plain \<^verbatim>\<open>wallpapers\<close> value, and to the resolved
  items of that value when it is an array without \<^verbatim>\<open>null\<close> entries. It rejects with a
  TypeError when the plain \<^verbatim>\<open>wallpapers\<close> value is an array that holds \<^verbatim>\<open>null\<close>, or is
  truthy and not an array.
\<close>

theorem loadCategory_degrades_on_bad_blob:
  assumes "\<not> truthy (cached (categoryCache s) (cacheKey_of seriesId categoryFile))"
    and "SERIES_CONFIG E seriesId = Some seriesConfig"
    and "fetch E (length (trace s)) (categoryBaseUrl seriesConfig @ ''/'' @ js_toString categoryFile)
           = Inr response"
    and "resp_ok response"
    and "resp_json response = Inr (JObj doc)"
    and "truthy (js_or (js_prop (JObj doc) ''blob'') (js_prop (JObj doc) ''payload''))"
    and "decode_fails E (js_or (js_prop (JObj doc) ''blob'') (js_prop (JObj doc) ''payload''))"
  shows "(\<not> truthy (js_prop (JObj doc) ''wallpapers'') \<longrightarrow>
            fst (loadCategory E seriesId categoryFile s) = Inr (JArr []))
       \<and> (\<forall>ws. js_prop (JObj doc) ''wallpapers'' = JArr ws \<and> (\<forall>w\<in>set ws. \<not> nullish w) \<longrightarrow>
            (\<exists>ts. fst (loadCategory E seriesId categoryFile s) = Inr (JArr ts)
                \<and> list_all2 (\<lambda>w t. transformWallpaperUrls (buildImageUrl E) w = Inr t) ws ts))
       \<and> (\<forall>ws. js_prop (JObj doc) ''wallpapers'' = JArr ws \<and> (\<exists>w\<in>set ws. nullish w) \<longrightarrow>
            fst (loadCategory E seriesId categoryFile s) = Inl (cannot_read ''path''))
       \<and> (truthy (js_prop (JObj doc) ''wallpapers'')
            \<and> (\<forall>ws. js_prop (JObj doc) ''wallpapers'' \<noteq> JArr ws) \<longrightarrow>
            fst (loadCategory E seriesId categoryFile s) = Inl (not_a_function ''wallpaperList.map''))"
proof -
  note run = loadCategory_after_bad_blob [OF assms]
  have absent: "\<not> truthy (js_prop (JObj doc) ''wallpapers'') \<longrightarrow>
      fst (loadCategory E seriesId categoryFile s) = Inr (JArr [])"
    unfolding run by (simp add: js_or_def transform_list_def del: js_prop.simps)
  have good: "\<exists>ts. fst (loadCategory E seriesId categoryFile s) = Inr (JArr ts)
                \<and> list_all2 (\<lambda>w t. transformWallpaperUrls (buildImageUrl E) w = Inr t) ws ts"
    if "js_prop (JObj doc) ''wallpapers'' = JArr ws" and "\<forall>w\<in>set ws. \<not> nullish w" for ws
  proof -
    from map_all_transform [OF that(2)] obtain ts where
      ts: "map_all (transformWallpaperUrls (buildImageUrl E)) ws = Inr ts"
      and rel: "list_all2 (\<lambda>w t. transformWallpaperUrls (buildImageUrl E) w = Inr t) ws ts"
      by blast
    have "fst (loadCategory E seriesId categoryFile s) = Inr (JArr ts)"
      unfolding run by (simp add: that(1) js_or_def transform_list_def ts del: js_prop.simps)
    with rel show ?thesis by blast
  qed
  have bad: "fst (loadCategory E seriesId categoryFile s) = Inl (cannot_read ''path'')"
    if "js_prop (JObj doc) ''wallpapers'' = JArr ws" and "\<exists>w\<in>set ws. nullish w" for ws
    unfolding run by (simp add: that(1) js_or_def transform_list_def map_all_null [OF that(2)] del: js_prop.simps)
  have other: "truthy (js_prop (JObj doc) ''wallpapers'')
            \<and> (\<forall>ws. js_prop (JObj doc) ''wallpapers'' \<noteq> JArr ws) \<longrightarrow>
            fst (loadCategory E seriesId categoryFile s) = Inl (not_a_function ''wallpaperList.map'')"
    unfolding run
    by (cases "js_prop (JObj doc) ''wallpapers''") (auto simp: js_or_def transform_list_def simp del: js_prop.simps)
  from absent good bad other show ?thesis by blast
qed

theorem loadCategory_degrades_on_bad_blob_witness:
  "fst (loadCategory (serving garbled_category) ''desktop'' (JStr ''g.json'') init_state)
     = Inr (JArr [demo_item ''g''])
   \<and> fst (loadCategory (serving (JObj [(''payload'', JStr ''%%%'')])) ''desktop'' (JStr ''g.json'')
           init_state)
     = Inr (JArr [])"
proof -
  let ?doc = "[(''blob'', JStr ''%%%''),
               (''wallpapers'', JArr [JObj [(''id'', JStr ''g''), (''path'', JStr ''g'')]])]"
  let ?bare = "[(''payload'', JStr ''%%%'')]"
  have h1: "\<not> truthy (cached (categoryCache init_state) (cacheKey_of ''desktop'' (JStr ''g.json'')))"
    by (simp add: init_state_def cached_cacheKey_of)
  have h2: "SERIES_CONFIG (serving d) ''desktop'' = Some demo_config" for d
    by (simp add: serving_def demo_env_def)
  have h3: "fetch (serving d) (length (trace init_state))
              (categoryBaseUrl demo_config @ ''/'' @ js_toString (JStr ''g.json''))
            = Inr (found d)" for d
    by (simp add: serving_def)
  have h4: "resp_ok (found d)" for d
    by (simp add: found_def)
  have h5: "resp_json (found garbled_category) = Inr (JObj ?doc)"
    "resp_json (found (JObj ?bare)) = Inr (JObj ?bare)"
    by (simp_all add: found_def garbled_category_def)
  have h6: "truthy (js_or (js_prop (JObj ?doc) ''blob'') (js_prop (JObj ?doc) ''payload''))"
    "truthy (js_or (js_prop (JObj ?bare) ''blob'') (js_prop (JObj ?bare) ''payload''))"
    by (simp_all add: js_or_def)
  have h7: "decode_fails (serving d) x" for d x
    by (simp add: decode_fails_def serving_def demo_env_def)
  note listed = loadCategory_degrades_on_bad_blob
      [OF h1 h2 h3 h4 h5(1) h6(1) h7, THEN conjunct2, THEN conjunct1, THEN spec, THEN mp]
  note bare = loadCategory_degrades_on_bad_blob
      [OF h1 h2 h3 h4 h5(2) h6(2) h7, THEN conjunct1, THEN mp]
  have "js_prop (JObj ?doc) ''wallpapers'' = JArr [JObj [(''id'', JStr ''g''), (''path'', JStr ''g'')]]
        \<and> (\<forall>w\<in>set [JObj [(''id'', JStr ''g''), (''path'', JStr ''g'')]]. \<not> nullish w)"
    by simp
  from listed [OF this] obtain ts where
    r: "fst (loadCategory (serving garbled_category) ''desktop'' (JStr ''g.json'') init_state) = Inr (JArr ts)"
    and rel: "list_all2 (\<lambda>w t. transformWallpaperUrls (buildImageUrl (serving garbled_category)) w = Inr t)
                [JObj [(''id'', JStr ''g''), (''path'', JStr ''g'')]] ts"
    by (elim exE conjE)
  from rel have "ts = [demo_item ''g'']"
    by (auto simp: list_all2_Cons1 transformWallpaperUrls_def resolve_field_def js_or_def
          serving_def demo_env_def cdn_buildImageUrl_def demo_item_def)
  with r have first: "fst (loadCategory (serving garbled_category) ''desktop'' (JStr ''g.json'') init_state)
      = Inr (JArr [demo_item ''g''])"
    by simp
  have "\<not> truthy (js_prop (JObj ?bare) ''wallpapers'')"
    by simp
  from bare [OF this] first show ?thesis
    by simp
qed

lemma resolve_field_typed:
  assumes "truthy (js_prop w urlKey) \<longrightarrow> is_string (js_prop w urlKey)"
  shows "is_string (resolve_field build w pathKey urlKey (JStr []))"
    and "is_string (resolve_field build w pathKey urlKey JNull)
         \<or> resolve_field build w pathKey urlKey JNull = JNull"
  using assms by (auto simp: resolve_field_def js_or_def)

lemma transform_urls_total:
  assumes "item_typed w" and "transformWallpaperUrls build w = Inr t"
  shows "urls_total t"
proof -
  from assms(2) have t: "t = JObj
        (AList.update ''downloadUrl'' (resolve_field build w ''path'' ''downloadUrl'' (JStr []))
        (AList.update ''previewUrl'' (resolve_field build w ''previewPath'' ''previewUrl'' JNull)
        (AList.update ''thumbnailUrl'' (resolve_field build w ''thumbnailPath'' ''thumbnailUrl'' (JStr []))
        (AList.update ''url'' (resolve_field build w ''path'' ''url'' (JStr []))
        (js_spread w)))))"
    by (auto simp: transformWallpaperUrls_def split: if_splits)
  from assms(1) have ty:
    "truthy (js_prop w ''url'') \<longrightarrow> is_string (js_prop w ''url'')"
    "truthy (js_prop w ''thumbnailUrl'') \<longrightarrow> is_string (js_prop w ''thumbnailUrl'')"
    "truthy (js_prop w ''previewUrl'') \<longrightarrow> is_string (js_prop w ''previewUrl'')"
    "truthy (js_prop w ''downloadUrl'') \<longrightarrow> is_string (js_prop w ''downloadUrl'')"
    by (simp_all add: item_typed_def)
  have u: "js_prop t ''url'' = resolve_field build w ''path'' ''url'' (JStr [])"
    and th: "js_prop t ''thumbnailUrl'' = resolve_field build w ''thumbnailPath'' ''thumbnailUrl'' (JStr [])"
    and p: "js_prop t ''previewUrl'' = resolve_field build w ''previewPath'' ''previewUrl'' JNull"
    and d: "js_prop t ''downloadUrl'' = resolve_field build w ''path'' ''downloadUrl'' (JStr [])"
    by (simp_all add: t update_conv')
  show ?thesis
    unfolding urls_total_def u th p d
    using resolve_field_typed [OF ty(1)] resolve_field_typed [OF ty(2)]
      resolve_field_typed [OF ty(3)] resolve_field_typed [OF ty(4)]
    by blast
qed

lemma map_all_urls_total:
  "list_all item_typed ws \<Longrightarrow> map_all (transformWallpaperUrls build) ws = Inr ts \<Longrightarrow>
   list_all urls_total ts"
proof (induction ws arbitrary: ts)
  case Nil
  then show ?case by simp
next
  case (Cons w ws)
  from Cons.prems(2) obtain t ts' where
    t: "transformWallpaperUrls build w = Inr t"
    and ts': "map_all (transformWallpaperUrls build) ws = Inr ts'"
    and eq: "ts = t # ts'"
    by (auto split: sum.splits)
  from Cons.prems(1) have "item_typed w" and "list_all item_typed ws"
    by simp_all
  with t ts' eq Cons.IH show ?case
    by (simp add: transform_urls_total)
qed

lemma transform_list_resolved:
  "items_typed wl \<Longrightarrow> transform_list E wl = Inr v \<Longrightarrow> resolved_list v"
  by (cases wl) (auto simp: transform_list_def split: sum.splits dest: map_all_urls_total)

lemma fetch_data_typed:
  "env_typed E \<Longrightarrow> fetch_data E url s = (Inr data, s1) \<Longrightarrow> doc_typed data"
  by (auto simp: env_typed_def fetch_data_def Let_def split: sum.splits if_splits)

lemma decodeDataWithWorker_typed:
  "env_typed E \<Longrightarrow> decodeDataWithWorker E x s = (Inr d, s') \<Longrightarrow> doc_typed d"
  by (auto simp: env_typed_def decodeDataWithWorker_def decodeMainThread_def Let_def
           split: sum.splits if_splits)

lemma items_typed_js_or:
  "items_typed a \<Longrightarrow> items_typed b \<Longrightarrow> items_typed (js_or a b)"
  by (simp add: js_or_def)

lemma wallpaperList_of_typed:
  assumes "env_typed E" and "doc_typed data" and "wallpaperList_of E f data s = (wl, s')"
  shows "items_typed wl"
proof -
  have fallback: "items_typed (js_or (js_prop data ''wallpapers'') (JArr []))"
    using assms(2) by (simp add: doc_typed_def items_typed_js_or)
  show ?thesis
  proof (cases "truthy (js_or (js_prop data ''blob'') (js_prop data ''payload''))")
    case False
    with assms(3) fallback show ?thesis
      by (auto simp: wallpaperList_of_def)
  next
    case True
    obtain r s1 where d: "decodeDataWithWorker E (js_or (js_prop data ''blob'') (js_prop data ''payload'')) s = (r, s1)"
      by (cases "decodeDataWithWorker E (js_or (js_prop data ''blob'') (js_prop data ''payload'')) s")
    show ?thesis
    proof (cases r)
      case (Inl e)
      with True d assms(3) fallback show ?thesis
        by (auto simp: wallpaperList_of_def decode_failed_def)
    next
      case (Inr decoded)
      with d assms(1) have "doc_typed decoded"
        by (auto dest: decodeDataWithWorker_typed)
      then have "items_typed (js_or (js_prop decoded ''wallpapers'') decoded)"
        by (simp add: doc_typed_def items_typed_js_or)
      with Inr True d assms(3) fallback show ?thesis
        by (auto simp: wallpaperList_of_def decode_failed_def split: if_splits)
    qed
  qed
qed

lemma loadCategory_try_resolved:
  assumes "env_typed E" and "loadCategory_try E cfg f key s = (Inr v, s')"
  shows "resolved_list v"
proof -
  from loadCategory_try_Inr [OF assms(2)] obtain data s1 wl s2 where
    a: "fetch_data E (categoryBaseUrl cfg @ ''/'' @ js_toString f) s = (Inr data, s1)"
    and b: "wallpaperList_of E f data s1 = (wl, s2)"
    and c: "transform_list E wl = Inr v"
    by blast
  from fetch_data_typed [OF assms(1) a] have "doc_typed data" .
  from wallpaperList_of_typed [OF assms(1) this b] have "items_typed wl" .
  from transform_list_resolved [OF this c] show ?thesis .
qed

lemma cache_resolved_update:
  "cache_resolved s \<Longrightarrow> categoryCache s' = (categoryCache s)(key \<mapsto> v) \<Longrightarrow> resolved_list v \<Longrightarrow>
   cache_resolved s'"
  by (auto simp: cache_resolved_def)

lemma resolve_field_defined:
  "is_string (resolve_field build w pathKey urlKey (JStr []))
   \<or> truthy (resolve_field build w pathKey urlKey (JStr []))"
  "is_string (resolve_field build w pathKey urlKey JNull)
   \<or> resolve_field build w pathKey urlKey JNull = JNull
   \<or> truthy (resolve_field build w pathKey urlKey JNull)"
  by (auto simp: resolve_field_def js_or_def)

lemma transform_urls_defined:
  assumes "transformWallpaperUrls build w = Inr t"
  shows "urls_defined t"
proof -
  from assms have t: "t = JObj
        (AList.update ''downloadUrl'' (resolve_field build w ''path'' ''downloadUrl'' (JStr []))
        (AList.update ''previewUrl'' (resolve_field build w ''previewPath'' ''previewUrl'' JNull)
        (AList.update ''thumbnailUrl'' (resolve_field build w ''thumbnailPath'' ''thumbnailUrl'' (JStr []))
        (AList.update ''url'' (resolve_field build w ''path'' ''url'' (JStr []))
        (js_spread w)))))"
    by (auto simp: transformWallpaperUrls_def split: if_splits)
  have u: "js_prop t ''url'' = resolve_field build w ''path'' ''url'' (JStr [])"
    and th: "js_prop t ''thumbnailUrl'' = resolve_field build w ''thumbnailPath'' ''thumbnailUrl'' (JStr [])"
    and p: "js_prop t ''previewUrl'' = resolve_field build w ''previewPath'' ''previewUrl'' JNull"
    and d: "js_prop t ''downloadUrl'' = resolve_field build w ''path'' ''downloadUrl'' (JStr [])"
    by (simp_all add: t update_conv')
  show ?thesis
    unfolding urls_defined_def u th p d
    using resolve_field_defined [of build w] by blast
qed

lemma map_all_urls_defined:
  "map_all (transformWallpaperUrls build) ws = Inr ts \<Longrightarrow> list_all urls_defined ts"
proof (induction ws arbitrary: ts)
  case Nil
  then show ?case by simp
next
  case (Cons w ws)
  from Cons.prems obtain t ts' where
    t: "transformWallpaperUrls build w = Inr t"
    and ts': "map_all (transformWallpaperUrls build) ws = Inr ts'"
    and eq: "ts = t # ts'"
    by (auto split: sum.splits)
  with Cons.IH show ?case
    by (simp add: transform_urls_defined)
qed

lemma transform_list_defined:
  "transform_list E wl = Inr v \<Longrightarrow> defined_list v"
  by (cases wl) (auto simp: transform_list_def split: sum.splits dest: map_all_urls_defined)

lemma loadCategory_try_defined:
  assumes "loadCategory_try E cfg f key s = (Inr v, s')"
  shows "defined_list v"
proof -
  from loadCategory_try_Inr [OF assms] obtain wl where "transform_list E wl = Inr v"
    by blast
  then show ?thesis by (rule transform_list_defined)
qed

lemma cache_defined_update:
  "cache_defined s \<Longrightarrow> categoryCache s' = (categoryCache s)(key \<mapsto> v) \<Longrightarrow> defined_list v \<Longrightarrow>
   cache_defined s'"
  by (auto simp: cache_defined_def)

lemma cache_defined_init_state: "cache_defined init_state"
  by (simp add: cache_defined_def init_state_def)

lemma cache_defined_clearCache: "cache_defined s \<Longrightarrow> cache_defined (clearCache seriesId s)"
  by (auto simp: cache_defined_def clearCache_def Let_def restrict_map_def split: if_splits)

lemma cached_hit_entry:
  "truthy (cached (categoryCache s) (cacheKey_of seriesId categoryFile)) \<Longrightarrow>
   categoryCache s (cacheKey_of seriesId categoryFile)
     = Some (cached (categoryCache s) (cacheKey_of seriesId categoryFile))"
  by (simp add: cached_cacheKey_of split: option.splits)

text \<open>
  C6, as the claim states it, fails: resolution returns whatever truthy value the document
  carries in a URL field whose path is missing. An item \<^verbatim>\<open>{downloadUrl: 7}\<close> comes back
  with \<^verbatim>\<open>downloadUrl\<close> the number 7.
\<close>

theorem loadCategory_keeps_number_url_counterexample:
  "fst (loadCategory (serving (JObj [(''wallpapers'', JArr [JObj [(''downloadUrl'', JNum 7)]])]))
          ''desktop'' (JStr ''n.json'') init_state)
   = Inr (JArr [JObj [(''downloadUrl'', JNum 7), (''url'', JStr []), (''thumbnailUrl'', JStr []),
                      (''previewUrl'', JNull)]])
   \<and> \<not> is_string (js_prop (JObj [(''downloadUrl'', JNum 7), (''url'', JStr []),
                                  (''thumbnailUrl'', JStr []), (''previewUrl'', JNull)])
                       ''downloadUrl'')"
  by (simp add: loader_defs demo_defs serving_def)

text \<open>
  C6, amended. Every item of a sequence that \<^verbatim>\<open>loadCategory\<close> returns has \<^verbatim>\<open>url\<close>,
  \<^verbatim>\<open>thumbnailUrl\<close> and \<^verbatim>\<open>downloadUrl\<close> set to a string or to the truthy value the document
  carried in that field, and \<^verbatim>\<open>previewUrl\<close> set to a string, to \<^verbatim>\<open>null\<close> or to the truthy
  value the document carried; none is undefined or absent. When every document follows the
  Item shape of the wire format (a URL field that carries a value carries a string), the
  first three are strings and \<^verbatim>\<open>previewUrl\<close> is a string or \<^verbatim>\<open>null\<close>. The category cache
  holds what earlier loads put there, and after the call it is again of that kind.
\<close>

theorem loadCategory_urls_defined:
  assumes "cache_defined s"
    and "fst (loadCategory E seriesId categoryFile s) = Inr v"
  shows "(\<exists>items. v = JArr items \<and> (\<forall>item\<in>set items. urls_defined item))
       \<and> cache_defined (snd (loadCategory E seriesId categoryFile s))
       \<and> (env_typed E \<and> cache_resolved s \<longrightarrow>
            (\<exists>items. v = JArr items \<and> (\<forall>item\<in>set items. urls_total item))
          \<and> cache_resolved (snd (loadCategory E seriesId categoryFile s)))"
proof -
  obtain s' where run: "loadCategory E seriesId categoryFile s = (Inr v, s')"
    using assms(2) by (cases "loadCategory E seriesId categoryFile s") simp
  from loadCategory_frame [OF run]
  have upd: "categoryCache s' = (categoryCache s)(cacheKey_of seriesId categoryFile \<mapsto> v)"
    by simp
  have def: "defined_list v"
  proof (cases "truthy (cached (categoryCache s) (cacheKey_of seriesId categoryFile))")
    case True
    with run have v: "v = cached (categoryCache s) (cacheKey_of seriesId categoryFile)"
      by (auto simp: loadCategory_def)
    from cached_hit_entry [OF True] True assms(1) show ?thesis
      unfolding v cache_defined_def by blast
  next
    case False
    with run obtain cfg s0 where
      "loadCategory_try E cfg categoryFile (cacheKey_of seriesId categoryFile) s = (Inr v, s0)"
      by (auto simp: loadCategory_def split: option.splits prod.splits sum.splits)
    then show ?thesis
      by (rule loadCategory_try_defined)
  qed
  have typed: "resolved_list v" if "env_typed E" and "cache_resolved s"
  proof (cases "truthy (cached (categoryCache s) (cacheKey_of seriesId categoryFile))")
    case True
    with run have v: "v = cached (categoryCache s) (cacheKey_of seriesId categoryFile)"
      by (auto simp: loadCategory_def)
    from cached_hit_entry [OF True] True that(2) show ?thesis
      unfolding v cache_resolved_def by blast
  next
    case False
    with run obtain cfg s0 where
      "loadCategory_try E cfg categoryFile (cacheKey_of seriesId categoryFile) s = (Inr v, s0)"
      by (auto simp: loadCategory_def split: option.splits prod.splits sum.splits)
    with that(1) show ?thesis
      by (rule loadCategory_try_resolved)
  qed
  from def have one: "\<exists>items. v = JArr items \<and> (\<forall>item\<in>set items. urls_defined item)"
    by (cases v) (auto simp: list_all_iff)
  from assms(1) upd def have two: "cache_defined s'"
    by (rule cache_defined_update)
  have three: "(\<exists>items. v = JArr items \<and> (\<forall>item\<in>set items. urls_total item)) \<and> cache_resolved s'"
    if "env_typed E" and "cache_resolved s"
  proof -
    from typed [OF that] have r: "resolved_list v" .
    then have "\<exists>items. v = JArr items \<and> (\<forall>item\<in>set items. urls_total item)"
      by (cases v) (auto simp: list_all_iff)
    moreover from that(2) upd r have "cache_resolved s'"
      by (rule cache_resolved_update)
    ultimately show ?thesis by simp
  qed
  from one two three show ?thesis
    using run by simp
qed

lemma demo_env_typed: "env_typed (demo_env [''a.json''] [])"
  by (auto simp: env_typed_def demo_defs doc_typed_def item_typed_def split: if_splits)

theorem loadCategory_urls_defined_witness:
  "fst (loadCategory (demo_env [''a.json''] []) ''desktop'' (JStr ''a.json'') init_state)
     = Inr (JArr [demo_item ''a.json''])
   \<and> urls_defined (demo_item ''a.json'') \<and> urls_total (demo_item ''a.json'')"
proof -
  have h1: "cache_defined init_state"
    by (simp add: cache_defined_def init_state_def)
  have h2: "cache_resolved init_state"
    by (simp add: cache_resolved_def init_state_def)
  have h3: "fst (loadCategory (demo_env [''a.json''] []) ''desktop'' (JStr ''a.json'') init_state)
              = Inr (JArr [demo_item ''a.json''])"
    by (simp add: loader_defs demo_defs)
  from loadCategory_urls_defined [OF h1 h3] demo_env_typed h2 h3 show ?thesis
    by simp
qed

section \<open>Background completeness\<close>











lemma concat_map_take_drop:
  "concat (map f (take n xs)) @ concat (map f (drop n xs)) = concat (map f xs)"
  by (metis append_take_drop_id concat_append map_append)








end
